theory Spec2Isabelle
  imports Complex_Main
begin

section \<open>Position Store (signals.ts)\<close>

text \<open>
  JavaScript numbers that carry amounts and prices are modelled as exact rationals;
  timestamps (\<open>Date.now()\<close>, milliseconds) as integers. An optional field
  (\<open>f?: T\<close>, \<open>undefined\<close>, \<open>null\<close>) is an \<open>option\<close>. The persisted
  collection \<open>signals.json\<close> is the list every operation loads, mutates and saves:
  each operation takes the loaded list and returns the list that is on disk afterwards.
  The clock is a parameter \<open>now\<close> of every operation that reads it.
\<close>

datatype status = Open | Closed

datatype source = Birdeye | Onchain

record trader_rec =
  buySigs :: "string list option"
  sellSigs :: "string list option"
  solSpent :: "rat option"

record Signal =
  ts :: int
  wallet :: string
  mint :: string
  amount :: rat
  entryPriceUsd :: "rat option"
  symbol :: "string option"
  status :: status
  stopLossPct :: rat
  source :: "source option"
  updatedTs :: "int option"
  occurrences :: "int option"
  closedTs :: "int option"
  closeReason :: "string option"
  trader :: "trader_rec option"
  exitPriceUsd :: "rat option"
  exitPnlPct :: "rat option"

definition MERGE_WINDOW_MS :: int where
  "MERGE_WINDOW_MS = 60 * 1000"

text \<open>\<open>Array.prototype.findIndex\<close>: the first index whose element satisfies the
  predicate; \<open>None\<close> stands for the result \<open>-1\<close>.\<close>

fun findIndex :: "('a \<Rightarrow> bool) \<Rightarrow> 'a list \<Rightarrow> nat option" where
  "findIndex P [] = None"
| "findIndex P (x # xs) =
     (if P x then Some 0
      else (case findIndex P xs of None \<Rightarrow> None | Some i \<Rightarrow> Some (Suc i)))"

definition hasOpenSignalForMint :: "string \<Rightarrow> Signal list \<Rightarrow> bool" where
  "hasOpenSignalForMint m list = list_ex (\<lambda>s. status s = Open \<and> mint s = m) list"

text \<open>JavaScript truthiness of an optional number: \<open>undefined\<close> and \<open>0\<close> are falsy.\<close>

definition truthy :: "rat option \<Rightarrow> bool" where
  "truthy p = (case p of None \<Rightarrow> False | Some v \<Rightarrow> v \<noteq> 0)"

definition mergeVWAP :: "rat \<Rightarrow> rat option \<Rightarrow> rat \<Rightarrow> rat option \<Rightarrow> rat option" where
  "mergeVWAP prevAmount prevPrice addAmount addPrice =
     (if \<not> truthy prevPrice \<and> \<not> truthy addPrice then None
      else if \<not> truthy prevPrice \<and> truthy addPrice then addPrice
      else if truthy prevPrice \<and> \<not> truthy addPrice then prevPrice
      else (let total = prevAmount + addAmount in
            if total \<le> 0 then prevPrice
            else Some ((the prevPrice * prevAmount + the addPrice * addAmount) / total)))"

text \<open>The parameter object of \<open>upsertBuy\<close>. \<open>priceUsd\<close> and \<open>symbol\<close> may be
  \<open>null\<close> or absent, \<open>source\<close> may be absent.\<close>

record buy_params =
  b_wallet :: string
  b_mint :: string
  b_amount :: rat
  b_stopLossPct :: rat
  b_source :: "source option"
  b_priceUsd :: "rat option"
  b_symbol :: "string option"

definition is_open_for :: "string \<Rightarrow> string \<Rightarrow> Signal \<Rightarrow> bool" where
  "is_open_for w m s = (status s = Open \<and> wallet s = w \<and> mint s = m)"

definition newSig :: "buy_params \<Rightarrow> int \<Rightarrow> Signal" where
  "newSig p now =
     \<lparr> ts = now, wallet = b_wallet p, mint = b_mint p, amount = b_amount p,
       entryPriceUsd = b_priceUsd p, symbol = b_symbol p, status = Open,
       stopLossPct = b_stopLossPct p, source = b_source p, updatedTs = Some now,
       occurrences = Some 1, closedTs = None, closeReason = None, trader = None,
       exitPriceUsd = None, exitPnlPct = None \<rparr>"

text \<open>The merge branch of \<open>upsertBuy\<close>: the updates made to the open Signal found.
  A string is falsy when absent or empty.\<close>

definition merged :: "buy_params \<Rightarrow> int \<Rightarrow> Signal \<Rightarrow> Signal" where
  "merged p now s =
     s\<lparr> entryPriceUsd := mergeVWAP (amount s) (entryPriceUsd s) (b_amount p) (b_priceUsd p),
        amount := amount s + b_amount p,
        updatedTs := Some now,
        occurrences := Some ((case occurrences s of None \<Rightarrow> 1 | Some k \<Rightarrow> k) + 1),
        symbol := (if (b_symbol p \<noteq> None \<and> b_symbol p \<noteq> Some [])
                      \<and> (symbol s = None \<or> symbol s = Some [])
                   then b_symbol p else symbol s),
        source := (if b_source p \<noteq> None \<and> source s = None then b_source p else source s) \<rparr>"

definition last_update :: "Signal \<Rightarrow> int" where
  "last_update s = (case updatedTs s of None \<Rightarrow> ts s | Some u \<Rightarrow> u)"

text \<open>\<open>upsertBuy\<close> returns the stored list and the Signal it resolved to.\<close>

definition upsertBuy :: "buy_params \<Rightarrow> int \<Rightarrow> Signal list \<Rightarrow> Signal list \<times> Signal" where
  "upsertBuy p now list =
     (case findIndex (is_open_for (b_wallet p) (b_mint p)) list of
        Some idx \<Rightarrow>
          (let s = list ! idx in
           if now - last_update s \<le> MERGE_WINDOW_MS
           then (list[idx := merged p now s], merged p now s)
           else (list @ [newSig p now], newSig p now))
      | None \<Rightarrow> (list @ [newSig p now], newSig p now))"

text \<open>The two closing loops visit every Signal of the loaded list in order; the list is
  saved only when something was closed, and is otherwise left as loaded.\<close>

definition close_one :: "string \<Rightarrow> int \<Rightarrow> Signal \<Rightarrow> Signal" where
  "close_one reason now s =
     s\<lparr> status := Closed, closedTs := Some now, closeReason := Some reason \<rparr>"

definition closeByWalletAndMint ::
    "string \<Rightarrow> string \<Rightarrow> string option \<Rightarrow> int \<Rightarrow> Signal list \<Rightarrow> Signal list \<times> nat" where
  "closeByWalletAndMint w m reason now list =
     (let r = (case reason of None \<Rightarrow> ''sold_by_wallet'' | Some x \<Rightarrow> x);
          list' = map (\<lambda>s. if is_open_for w m s then close_one r now s else s) list;
          closed = length (filter (is_open_for w m) list)
      in (if closed > 0 then list' else list, closed))"

definition close_exit_one :: "rat \<Rightarrow> string \<Rightarrow> int \<Rightarrow> Signal \<Rightarrow> Signal" where
  "close_exit_one exitPrice reason now s =
     (let s1 = s\<lparr> status := Closed, closedTs := Some now, closeReason := Some reason,
                  exitPriceUsd := Some exitPrice \<rparr>
      in (case entryPriceUsd s of
            Some e \<Rightarrow> if e > 0 then s1\<lparr> exitPnlPct := Some ((exitPrice - e) / e) \<rparr> else s1
          | None \<Rightarrow> s1))"

definition closeByWalletMintWithExit ::
    "string \<Rightarrow> string \<Rightarrow> rat \<Rightarrow> string \<Rightarrow> int \<Rightarrow> Signal list \<Rightarrow> Signal list \<times> nat" where
  "closeByWalletMintWithExit w m exitPrice reason now list =
     (let list' = map (\<lambda>s. if is_open_for w m s then close_exit_one exitPrice reason now s else s) list;
          closed = length (filter (is_open_for w m) list)
      in (if closed > 0 then list' else list, closed))"

definition updateOpenSignalsStopLoss :: "rat \<Rightarrow> Signal list \<Rightarrow> Signal list \<times> nat" where
  "updateOpenSignalsStopLoss newPct list =
     (let hit = (\<lambda>s. status s = Open \<and> stopLossPct s \<noteq> newPct);
          list' = map (\<lambda>s. if hit s then s\<lparr> stopLossPct := newPct \<rparr> else s) list;
          changed = length (filter hit list)
      in (if changed > 0 then list' else list, changed))"

text \<open>\<open>attachTraderBuy\<close> and \<open>attachTraderSell\<close> look the Signal up by value
  (\<open>ts\<close>, \<open>wallet\<close>, \<open>mint\<close>, and for a buy also \<open>status\<close>) and extend the
  bot's own execution trail on the first match.\<close>

definition empty_trader :: trader_rec where
  "empty_trader = \<lparr> buySigs = None, sellSigs = None, solSpent = None \<rparr>"

definition or_empty :: "'a list option \<Rightarrow> 'a list" where
  "or_empty x = (case x of None \<Rightarrow> [] | Some l \<Rightarrow> l)"

definition trader_or_new :: "Signal \<Rightarrow> trader_rec" where
  "trader_or_new s = (case trader s of None \<Rightarrow> empty_trader | Some t \<Rightarrow> t)"

definition attachTraderBuy :: "Signal \<Rightarrow> string \<Rightarrow> rat option \<Rightarrow> Signal list \<Rightarrow> Signal list" where
  "attachTraderBuy sig jupSig spent list =
     (case findIndex (\<lambda>x. ts x = ts sig \<and> wallet x = wallet sig \<and> mint x = mint sig
                          \<and> status x = status sig) list of
        None \<Rightarrow> list
      | Some i \<Rightarrow>
          (let t0 = trader_or_new (list ! i);
               t1 = t0\<lparr> buySigs := Some (or_empty (buySigs t0) @ [jupSig]) \<rparr>;
               t2 = (case spent of
                       None \<Rightarrow> t1
                     | Some v \<Rightarrow> t1\<lparr> solSpent := Some ((case solSpent t1 of None \<Rightarrow> 0 | Some x \<Rightarrow> x) + v) \<rparr>)
           in list[i := (list ! i)\<lparr> trader := Some t2 \<rparr>]))"

definition attachTraderSell :: "Signal \<Rightarrow> string \<Rightarrow> Signal list \<Rightarrow> Signal list" where
  "attachTraderSell sig jupSig list =
     (case findIndex (\<lambda>x. ts x = ts sig \<and> wallet x = wallet sig \<and> mint x = mint sig) list of
        None \<Rightarrow> list
      | Some i \<Rightarrow>
          (let t0 = trader_or_new (list ! i)
           in list[i := (list ! i)\<lparr> trader := Some (t0\<lparr> sellSigs := Some (or_empty (sellSigs t0) @ [jupSig]) \<rparr>) \<rparr>]))"


subsection \<open>Sequences of buy events\<close>

text \<open>A buy event is the parameter object of one \<open>upsertBuy\<close> call and the clock
  reading of that call. \<open>upsertBuys\<close> makes the calls in order and keeps the Signal
  the last call returned.\<close>

type_synonym buy_event = "buy_params \<times> int"

fun upsertBuys ::
    "buy_event list \<Rightarrow> Signal list \<times> Signal option \<Rightarrow> Signal list \<times> Signal option" where
  "upsertBuys [] st = st"
| "upsertBuys ((p, now) # es) st =
     upsertBuys es (case upsertBuy p now (fst st) of (list', s) \<Rightarrow> (list', Some s))"

text \<open>Every event arrives within the merge window of the one before it.\<close>

fun within_window :: "int list \<Rightarrow> bool" where
  "within_window (t1 # t2 # rest) = (t2 - t1 \<le> MERGE_WINDOW_MS \<and> within_window (t2 # rest))"
| "within_window _ = True"

text \<open>The price the specification asks for: the volume-weighted average over the
  priced events only, undefined when there is none.\<close>

definition priced :: "buy_event list \<Rightarrow> buy_event list" where
  "priced es = filter (\<lambda>e. b_priceUsd (fst e) \<noteq> None) es"

definition spec_vwap :: "buy_event list \<Rightarrow> rat option" where
  "spec_vwap es =
     (if priced es = [] then None
      else Some (sum_list (map (\<lambda>e. the (b_priceUsd (fst e)) * b_amount (fst e)) (priced es))
                 / sum_list (map (\<lambda>e. b_amount (fst e)) (priced es))))"

text \<open>The price the code carries along: each merge combines the running price, weighted
  by the whole accumulated amount, with the price of the event.\<close>

fun vwap_fold :: "rat \<Rightarrow> rat option \<Rightarrow> buy_event list \<Rightarrow> rat option" where
  "vwap_fold a p [] = p"
| "vwap_fold a p (e # es) =
     vwap_fold (a + b_amount (fst e)) (mergeVWAP a p (b_amount (fst e)) (b_priceUsd (fst e))) es"

definition ev :: "rat \<Rightarrow> rat option \<Rightarrow> int \<Rightarrow> buy_event" where
  "ev a p t = (\<lparr> b_wallet = ''W1'', b_mint = ''M1'', b_amount = a, b_stopLossPct = - (4 / 5),
       b_source = Some Birdeye, b_priceUsd = p, b_symbol = None \<rparr>, t)"

section \<open>Price Monitor (pricecheck.ts)\<close>

text \<open>
  One cycle loads the Signals, keeps the open ones with a positive entry price, looks up
  one price per mint, and evaluates each kept Signal in order against the store. The
  price lookup is the parameter \<open>prices\<close> (\<open>None\<close> when the lookup fails or is not a
  number); the global take-profit is \<open>tp\<close> (\<open>None\<close> when it is null, absent or NaN).
  The code computes \<open>pnlPct = (current - entry) / entry\<close> in double precision; the
  number it obtains is the parameter \<open>pnl current entry\<close>, about whose rounding
  nothing is assumed. The best-effort auto-sell does not touch the store and swallows its
  errors, so it is left out. The notification sent after a close is awaited inside the
  loop: when it throws, the exception leaves the loop and the cycle ends there.
  \<open>notify s\<close> tells whether the notification for \<open>s\<close> returns normally.
\<close>

definition open_priced :: "Signal \<Rightarrow> bool" where
  "open_priced s =
     (status s = Open \<and> (case entryPriceUsd s of None \<Rightarrow> False | Some e \<Rightarrow> e > 0))"

text \<open>The evaluation of one Signal of the snapshot: the store afterwards, and whether
  the loop goes on to the next Signal.\<close>

definition evaluate_one ::
    "(rat \<Rightarrow> rat \<Rightarrow> rat) \<Rightarrow> (string \<Rightarrow> rat option) \<Rightarrow> rat option \<Rightarrow> (Signal \<Rightarrow> bool) \<Rightarrow> int
       \<Rightarrow> Signal \<Rightarrow> Signal list \<Rightarrow> Signal list \<times> bool" where
  "evaluate_one pnl prices tp notify now s store =
     (case prices (mint s) of
        None \<Rightarrow> (store, True)
      | Some current \<Rightarrow>
          if current \<le> 0 then (store, True)
          else
            (let entry = the (entryPriceUsd s);
                 pnlPct = pnl current entry
             in if pnlPct \<le> stopLossPct s
                then (case closeByWalletMintWithExit (wallet s) (mint s) current ''stop_loss'' now store of
                        (store', nclosed) \<Rightarrow> (store', nclosed = 0 \<or> notify s))
                else (case tp of
                        None \<Rightarrow> (store, True)
                      | Some t \<Rightarrow>
                          if pnlPct \<ge> t
                          then (case closeByWalletMintWithExit (wallet s) (mint s) current
                                       ''take_profit'' now store of
                                  (store', nclosed) \<Rightarrow> (store', nclosed = 0 \<or> notify s))
                          else (store, True))))"

fun evaluate ::
    "(rat \<Rightarrow> rat \<Rightarrow> rat) \<Rightarrow> (string \<Rightarrow> rat option) \<Rightarrow> rat option \<Rightarrow> (Signal \<Rightarrow> bool) \<Rightarrow> int
       \<Rightarrow> Signal list \<Rightarrow> Signal list \<Rightarrow> Signal list" where
  "evaluate pnl prices tp notify now [] store = store"
| "evaluate pnl prices tp notify now (s # rest) store =
     (case evaluate_one pnl prices tp notify now s store of
        (store', go) \<Rightarrow> if go then evaluate pnl prices tp notify now rest store' else store')"

definition tick ::
    "(rat \<Rightarrow> rat \<Rightarrow> rat) \<Rightarrow> (string \<Rightarrow> rat option) \<Rightarrow> rat option \<Rightarrow> (Signal \<Rightarrow> bool) \<Rightarrow> int
       \<Rightarrow> Signal list \<Rightarrow> Signal list" where
  "tick pnl prices tp notify now store =
     evaluate pnl prices tp notify now (filter open_priced store) store"

section \<open>Webhook handler and its guards (index.ts)\<close>

text \<open>
  The process keeps two in-memory maps beside the persisted Signals: the event keys seen
  (key to first-seen time) and the buy locks (mint to expiry). An event key is the
  colon-separated string of the transaction signature, the mint and the side, or of the
  actor, the mint, the side and the rounded amount when the event has no signature.
\<close>

datatype side = BUY | SELL

fun side_name :: "side \<Rightarrow> string" where
  "side_name BUY = ''BUY''"
| "side_name SELL = ''SELL''"

definition SEEN_TTL_MS :: int where
  "SEEN_TTL_MS = 5 * 60000"

definition BUY_LOCK_MS :: int where
  "BUY_LOCK_MS = 60000"

definition SOL_MINT :: string where
  "SOL_MINT = ''So11111111111111111111111111111111111111112''"

record app_state =
  seenEventKeys :: "string \<Rightarrow> int option"
  buyLocks :: "string \<Rightarrow> int option"
  signals :: "Signal list"
  stopLossPctDefault :: rat
  takeProfitPct :: "rat option"

text \<open>\<open>amtKey\<close> is the string the template literal gives for
  \<open>Math.round(amt * 1e6)\<close>: a double product, rounded and printed by the runtime. It is
  a parameter of the handlers.\<close>

definition mk_key :: "string option \<Rightarrow> string \<Rightarrow> string \<Rightarrow> side \<Rightarrow> string \<Rightarrow> string" where
  "mk_key signature actor mnt sd amtKey =
     (if signature \<noteq> None \<and> signature \<noteq> Some []
      then the signature @ '':'' @ mnt @ '':'' @ side_name sd
      else actor @ '':'' @ mnt @ '':'' @ side_name sd @ '':'' @ amtKey)"

text \<open>The membership test and insertion at the head of both webhook loops: a key that
  is in the map is skipped, a new key is stored with the current time.\<close>

definition seen_check ::
    "string \<Rightarrow> int \<Rightarrow> (string \<Rightarrow> int option) \<Rightarrow> (string \<Rightarrow> int option) \<times> bool" where
  "seen_check key now seen =
     (if seen key \<noteq> None then (seen, False) else (seen(key \<mapsto> now), True))"

text \<open>The sweep run by \<open>setInterval\<close> every 60 seconds.\<close>

definition sweep_seen :: "int \<Rightarrow> (string \<Rightarrow> int option) \<Rightarrow> (string \<Rightarrow> int option)" where
  "sweep_seen now seen =
     (\<lambda>k. case seen k of
             None \<Rightarrow> None
           | Some t \<Rightarrow> if now - t > SEEN_TTL_MS then None else Some t)"

definition sweep_locks :: "int \<Rightarrow> (string \<Rightarrow> int option) \<Rightarrow> (string \<Rightarrow> int option)" where
  "sweep_locks now locks =
     (\<lambda>m. case locks m of
             None \<Rightarrow> None
           | Some t \<Rightarrow> if now > t then None else Some t)"

definition cleanMapsNow :: "int \<Rightarrow> app_state \<Rightarrow> app_state" where
  "cleanMapsNow now st =
     st\<lparr> seenEventKeys := sweep_seen now (seenEventKeys st),
         buyLocks := sweep_locks now (buyLocks st) \<rparr>"

text \<open>What \<open>qualifyAndSnapshot\<close> answered for a buy.\<close>

record qualify_result =
  q_qualified :: bool
  q_source :: "source option"
  q_priceUsd :: "rat option"
  q_symbol :: "string option"

text \<open>
  The body of the buy loop for one (mint, amount) entry of an event, in two parts: the
  tests up to the storing of the key (\<open>webhook_buy\<close>), and what is done with an entry
  whose key was new (\<open>buy_body\<close>). \<open>autobuy\<close> is the confirmation of the bot's own
  buy when auto-trading is on and the buy went through, \<open>budget\<close> the configured
  \<open>TRADE_SOL_BUDGET\<close>. A notification that throws ends the handler; in the buy body
  every notification comes after the last change its branch makes to the maps and the
  store, so the notifications are left out. One clock reading \<open>now\<close> stands for the
  readings taken within one loop body.
\<close>

definition buy_body ::
    "string \<Rightarrow> string \<Rightarrow> rat \<Rightarrow> int \<Rightarrow> qualify_result \<Rightarrow> string option \<Rightarrow> rat
       \<Rightarrow> app_state \<Rightarrow> app_state" where
  "buy_body actor mnt amt now q autobuy budget st1 =
     (if hasOpenSignalForMint mnt (signals st1) then st1
      else if now < (case buyLocks st1 mnt of None \<Rightarrow> 0 | Some t \<Rightarrow> t) then st1
      else
        (let st2 = st1\<lparr> buyLocks := (buyLocks st1)(mnt \<mapsto> now + BUY_LOCK_MS) \<rparr> in
         if \<not> q_qualified q then st2
         else
           (case upsertBuy
                   \<lparr> b_wallet = actor, b_mint = mnt, b_amount = amt,
                     b_stopLossPct = stopLossPctDefault st2, b_source = q_source q,
                     b_priceUsd = q_priceUsd q, b_symbol = q_symbol q \<rparr>
                   now (signals st2) of
              (list', sig) \<Rightarrow>
                st2\<lparr> signals :=
                       (case autobuy of
                          None \<Rightarrow> list'
                        | Some jupSig \<Rightarrow> attachTraderBuy sig jupSig (Some budget) list') \<rparr>)))"

definition webhook_buy ::
    "string \<Rightarrow> string option \<Rightarrow> string \<Rightarrow> rat \<Rightarrow> string \<Rightarrow> int \<Rightarrow> qualify_result
       \<Rightarrow> string option \<Rightarrow> rat \<Rightarrow> app_state \<Rightarrow> app_state" where
  "webhook_buy actor signature mnt amt amtKey now q autobuy budget st =
     (if mnt = SOL_MINT then st
      else if amt = 0 then st
      else
        (case seen_check (mk_key signature actor mnt BUY amtKey) now (seenEventKeys st) of
           (seen', fresh) \<Rightarrow>
             if \<not> fresh then st
             else buy_body actor mnt amt now q autobuy budget (st\<lparr> seenEventKeys := seen' \<rparr>)))"

text \<open>
  The body of the sell loop for one (mint, amount) entry, in the same two parts. Here
  the announcement of the sell is awaited right after the key is stored and before the
  Signals are closed: \<open>announced\<close> tells whether it returned normally; when it throws,
  the handler ends with the key stored and nothing closed. \<open>autosell\<close> is the
  confirmation of the bot's own sell when auto-trading is on, a balance was held and the
  sell went through; it is attached to the first closed Signal of the pair.
\<close>

definition sell_body ::
    "string \<Rightarrow> string \<Rightarrow> int \<Rightarrow> bool \<Rightarrow> string option \<Rightarrow> app_state \<Rightarrow> app_state" where
  "sell_body actor mnt now announced autosell st1 =
     (if \<not> announced then st1
      else
        (case closeByWalletAndMint actor mnt (Some ''sold_by_wallet'') now (signals st1) of
           (list', nclosed) \<Rightarrow>
             st1\<lparr> signals :=
                    (if nclosed > 0
                     then (case autosell of
                             None \<Rightarrow> list'
                           | Some jupSig \<Rightarrow>
                               (case find (\<lambda>s. wallet s = actor \<and> mint s = mnt
                                                \<and> status s = Closed) list' of
                                  None \<Rightarrow> list'
                                | Some recentClosed \<Rightarrow>
                                    attachTraderSell recentClosed jupSig list'))
                     else list') \<rparr>))"

definition webhook_sell ::
    "string \<Rightarrow> string option \<Rightarrow> string \<Rightarrow> rat \<Rightarrow> string \<Rightarrow> int \<Rightarrow> bool \<Rightarrow> string option
       \<Rightarrow> app_state \<Rightarrow> app_state" where
  "webhook_sell actor signature mnt amt amtKey now announced autosell st =
     (if mnt = SOL_MINT then st
      else if amt = 0 then st
      else
        (case seen_check (mk_key signature actor mnt SELL amtKey) now (seenEventKeys st) of
           (seen', fresh) \<Rightarrow>
             if \<not> fresh then st
             else sell_body actor mnt now announced autosell (st\<lparr> seenEventKeys := seen' \<rparr>)))"

text \<open>The \<open>/set stoploss\<close> and \<open>/set takeprofit\<close> commands, on the number parsed
  (\<open>None\<close> for \<open>off\<close>; a value that is not a number is rejected before this point).\<close>

definition set_stoploss :: "rat \<Rightarrow> app_state \<Rightarrow> app_state" where
  "set_stoploss n st =
     (if n \<ge> 0 then st
      else st\<lparr> stopLossPctDefault := n,
               signals := fst (updateOpenSignalsStopLoss n (signals st)) \<rparr>)"

definition set_takeprofit :: "rat option \<Rightarrow> app_state \<Rightarrow> app_state" where
  "set_takeprofit v st =
     (if v = None \<or> v = Some 0 then st\<lparr> takeProfitPct := None \<rparr>
      else st\<lparr> takeProfitPct := v \<rparr>)"

text \<open>Everything that reaches the store, as one input alphabet.\<close>

datatype input =
    WebhookBuy string "string option" string rat string int qualify_result "string option" rat
  | WebhookSell string "string option" string rat string int bool "string option"
  | CleanMaps int
  | PriceTick "rat \<Rightarrow> rat \<Rightarrow> rat" "string \<Rightarrow> rat option" "Signal \<Rightarrow> bool" int
  | SetStopLoss rat
  | SetTakeProfit "rat option"

fun step :: "app_state \<Rightarrow> input \<Rightarrow> app_state" where
  "step st (WebhookBuy actor signature mnt amt amtKey now q autobuy budget) =
     webhook_buy actor signature mnt amt amtKey now q autobuy budget st"
| "step st (WebhookSell actor signature mnt amt amtKey now announced autosell) =
     webhook_sell actor signature mnt amt amtKey now announced autosell st"
| "step st (CleanMaps now) = cleanMapsNow now st"
| "step st (PriceTick pnl prices notify now) =
     st\<lparr> signals := tick pnl prices (takeProfitPct st) notify now (signals st) \<rparr>"
| "step st (SetStopLoss n) = set_stoploss n st"
| "step st (SetTakeProfit v) = set_takeprofit v st"

definition run :: "app_state \<Rightarrow> input list \<Rightarrow> app_state" where
  "run st inputs = foldl step st inputs"

text \<open>The invariant of the data model: no two open Signals share (wallet, mint).\<close>

definition open_pairs :: "Signal list \<Rightarrow> (string \<times> string) list" where
  "open_pairs list = map (\<lambda>s. (wallet s, mint s)) (filter (\<lambda>s. status s = Open) list)"

definition at_most_one_open :: "Signal list \<Rightarrow> bool" where
  "at_most_one_open list = distinct (open_pairs list)"

section \<open>Route Resolution (trader.ts)\<close>

text \<open>
  The quote service, the swap service and the balance lookup are outside the program. They
  are modelled by an environment that answers each call; the answer may depend on the
  moment of the call, counted by a clock that advances with every external call. The
  world carries the clock, the log of external calls made so far, and the set of mints
  under a buy lock. An exception is a value: \<open>Inl\<close> of the error message. The timer
  that would drop a buy lock by itself after the whole backoff time is not modelled; the
  lock is released when the buy returns.
\<close>

record trader_config =
  AUTO_TRADE :: bool
  JUP_SLIPPAGE_BPS :: int
  MAX_SLIPPAGE_BPS :: int
  JUP_PROBE_SOL :: "rat option"

record quote_request =
  inputMint :: string
  outputMint :: string
  req_amount :: int
  slippageBps :: int

text \<open>A quote is the payload the service returned, kept together with the request it
  answers.\<close>

record quote =
  answers :: quote_request
  payload :: nat

datatype quote_answer = Route nat | NoRoute | QuoteFails string

datatype swap_answer = Confirmed string | SwapFails string

datatype balance_answer = Balance int | BalanceFails string

record env =
  quote_at :: "nat \<Rightarrow> quote_request \<Rightarrow> quote_answer"
  swap_at :: "nat \<Rightarrow> quote \<Rightarrow> swap_answer"
  balance_at :: "nat \<Rightarrow> string \<Rightarrow> balance_answer"

datatype call = QuoteCall quote_request | SwapCall quote | BalanceCall string | Sleep int

record world =
  clock :: nat
  trace :: "call list"
  locks :: "string set"

definition USDC_MINT :: string where
  "USDC_MINT = ''EPjFWdd5AufqSSqeM2qN1xzybapC8G4wEGGkZwyTDt1v''"

definition called :: "call \<Rightarrow> world \<Rightarrow> world" where
  "called c w = w\<lparr> clock := Suc (clock w), trace := trace w @ [c] \<rparr>"

text \<open>\<open>getQuote\<close>: \<open>null\<close> when the service has no route or the response is not a
  quote, an exception when the request itself fails.\<close>

definition getQuote :: "env \<Rightarrow> quote_request \<Rightarrow> world \<Rightarrow> (string + quote option) \<times> world" where
  "getQuote e req w =
     ((case quote_at e (clock w) req of
         Route pl \<Rightarrow> Inr (Some \<lparr> answers = req, payload = pl \<rparr>)
       | NoRoute \<Rightarrow> Inr None
       | QuoteFails msg \<Rightarrow> Inl msg),
      called (QuoteCall req) w)"

definition doSwap :: "env \<Rightarrow> quote \<Rightarrow> world \<Rightarrow> (string + string) \<times> world" where
  "doSwap e q w =
     ((case swap_at e (clock w) q of
         Confirmed sg \<Rightarrow> Inr sg
       | SwapFails msg \<Rightarrow> Inl msg),
      called (SwapCall q) w)"

text \<open>\<open>getTokenBalance\<close>: for SOL the balance request is awaited as it is and its
  failure is an exception; for a token the request has its own \<open>catch\<close>, and a failed
  read counts as the amount 0.\<close>

definition getTokenBalance :: "env \<Rightarrow> string \<Rightarrow> world \<Rightarrow> (string + int) \<times> world" where
  "getTokenBalance e mnt w =
     ((case balance_at e (clock w) mnt of
         Balance b \<Rightarrow> Inr b
       | BalanceFails msg \<Rightarrow> if mnt = SOL_MINT then Inl msg else Inr 0),
      called (BalanceCall mnt) w)"

subsection \<open>Regular-expression tests on error messages\<close>

fun starts_with :: "string \<Rightarrow> string \<Rightarrow> bool" where
  "starts_with [] s = True"
| "starts_with (p # ps) [] = False"
| "starts_with (p # ps) (c # cs) = (p = c \<and> starts_with ps cs)"

fun contains :: "string \<Rightarrow> string \<Rightarrow> bool" where
  "contains p [] = (p = [])"
| "contains p (c # cs) = (starts_with p (c # cs) \<or> contains p cs)"

definition lower_char :: "char \<Rightarrow> char" where
  "lower_char c =
     (let n = (of_char c :: nat) in if 65 \<le> n \<and> n \<le> 90 then char_of (n + 32) else c)"

definition contains_ci :: "string \<Rightarrow> string \<Rightarrow> bool" where
  "contains_ci p s = contains (map lower_char p) (map lower_char s)"

definition is_digit :: "char \<Rightarrow> bool" where
  "is_digit c = (48 \<le> (of_char c :: nat) \<and> (of_char c :: nat) \<le> 57)"

text \<open>The test for a 5 followed by two digits (an HTTP 5xx status in the message).\<close>

fun has_5xx :: "string \<Rightarrow> bool" where
  "has_5xx (a # b # c # rest) =
     ((a = CHR ''5'' \<and> is_digit b \<and> is_digit c) \<or> has_5xx (b # c # rest))"
| "has_5xx _ = False"

text \<open>The no-viable-route marker: \<open>noviableroute\<close> anywhere in the message, in any
  letter case.\<close>

definition is_noroute :: "string \<Rightarrow> bool" where
  "is_noroute msg = contains_ci ''noviableroute'' msg"

definition retryable :: "string \<Rightarrow> bool" where
  "retryable msg =
     (is_noroute msg \<or> contains ''429'' msg \<or> has_5xx msg
      \<or> contains_ci ''deadline'' msg \<or> contains_ci ''timeout'' msg
      \<or> contains_ci ''fetch failed'' msg \<or> contains_ci ''EAI_AGAIN'' msg
      \<or> contains_ci ''ECONNRESET'' msg \<or> contains_ci ''ETIMEDOUT'' msg)"

subsection \<open>Buy path\<close>

text \<open>\<open>Math.min(MAX_SLIPPAGE_BPS, Math.max(JUP_SLIPPAGE_BPS || 200, 200))\<close>\<close>

definition base_slippage :: "trader_config \<Rightarrow> int" where
  "base_slippage cfg = max (if JUP_SLIPPAGE_BPS cfg = 0 then 200 else JUP_SLIPPAGE_BPS cfg) 200"

definition buy_slippage :: "trader_config \<Rightarrow> int" where
  "buy_slippage cfg = min (MAX_SLIPPAGE_BPS cfg) (base_slippage cfg)"

definition lamportsBudget :: "rat \<Rightarrow> int" where
  "lamportsBudget solBudget = max 1 (floor (solBudget * 1000000000))"

definition probeLamports :: "trader_config \<Rightarrow> rat \<Rightarrow> int" where
  "probeLamports cfg solBudget =
     max (lamportsBudget solBudget)
         (floor ((case JUP_PROBE_SOL cfg of None \<Rightarrow> 1 / 50 | Some v \<Rightarrow> v) * 1000000000))"

definition delays :: "int list" where
  "delays = [5000, 7000, 8000, 10000, 12000, 15000, 15000, 15000, 15000, 15000]"

definition buy_request :: "trader_config \<Rightarrow> string \<Rightarrow> int \<Rightarrow> quote_request" where
  "buy_request cfg mnt lamports =
     \<lparr> inputMint = SOL_MINT, outputMint = mnt, req_amount = lamports,
       slippageBps = buy_slippage cfg \<rparr>"

text \<open>The body of the \<open>try\<close> inside the retry loop. The probe quote has its own
  \<open>catch\<close> that turns an exception into \<open>null\<close>.\<close>

definition buy_attempt ::
    "env \<Rightarrow> trader_config \<Rightarrow> string \<Rightarrow> rat \<Rightarrow> world \<Rightarrow> (string + string) \<times> world" where
  "buy_attempt e cfg mnt solBudget w =
     (case getQuote e (buy_request cfg mnt (lamportsBudget solBudget)) w of
        (Inl msg, w1) \<Rightarrow> (Inl msg, w1)
      | (Inr (Some q), w1) \<Rightarrow> doSwap e q w1
      | (Inr None, w1) \<Rightarrow>
          (case getQuote e (buy_request cfg mnt (probeLamports cfg solBudget)) w1 of
             (Inr (Some probe), w2) \<Rightarrow>
               (case getQuote e (buy_request cfg mnt (lamportsBudget solBudget)) w2 of
                  (Inl msg, w3) \<Rightarrow> (Inl msg, w3)
                | (Inr (Some q), w3) \<Rightarrow> doSwap e q w3
                | (Inr None, w3) \<Rightarrow> (Inl ''noviableroute'', w3))
           | (_, w2) \<Rightarrow> (Inl ''noviableroute'', w2)))"

text \<open>The retry loop \<open>for (i = 0; i <= delays.length; i++)\<close>, by recursion on the delays
  that are left: with none left the failure is thrown whatever it is.\<close>

fun buy_loop ::
    "env \<Rightarrow> trader_config \<Rightarrow> string \<Rightarrow> rat \<Rightarrow> int list \<Rightarrow> world \<Rightarrow> (string + string) \<times> world" where
  "buy_loop e cfg mnt solBudget [] w = buy_attempt e cfg mnt solBudget w"
| "buy_loop e cfg mnt solBudget (d # ds) w =
     (case buy_attempt e cfg mnt solBudget w of
        (Inr sg, w1) \<Rightarrow> (Inr sg, w1)
      | (Inl msg, w1) \<Rightarrow>
          if retryable msg then buy_loop e cfg mnt solBudget ds (called (Sleep d) w1)
          else (Inl msg, w1))"

definition buyTokenWithSol ::
    "env \<Rightarrow> trader_config \<Rightarrow> string \<Rightarrow> rat \<Rightarrow> world \<Rightarrow> (string + string) \<times> world" where
  "buyTokenWithSol e cfg mnt solBudget w =
     (if \<not> AUTO_TRADE cfg then (Inl ''AUTO_TRADE is disabled'', w)
      else if mnt \<in> locks w then (Inl ''buy lock active for this mint'', w)
      else (case buy_loop e cfg mnt solBudget delays (w\<lparr> locks := insert mnt (locks w) \<rparr>) of
              (r, w1) \<Rightarrow> (r, w1\<lparr> locks := locks w1 - {mnt} \<rparr>)))"

subsection \<open>Sell path\<close>

text \<open>\<open>Array.from(new Set(xs))\<close> keeps the first occurrence of each value, in order.\<close>

fun uniq :: "'a list \<Rightarrow> 'a list \<Rightarrow> 'a list" where
  "uniq seen [] = []"
| "uniq seen (x # xs) = (if x \<in> set seen then uniq seen xs else x # uniq (x # seen) xs)"

definition sell_slips :: "trader_config \<Rightarrow> int list" where
  "sell_slips cfg =
     (let cap = min (MAX_SLIPPAGE_BPS cfg) 1100;
          base = base_slippage cfg
      in uniq [] [base, 400, 700, 900, cap])"

definition sell_request :: "string \<Rightarrow> string \<Rightarrow> int \<Rightarrow> int \<Rightarrow> quote_request" where
  "sell_request mnt out amt slip =
     \<lparr> inputMint = mnt, outputMint = out, req_amount = amt, slippageBps = slip \<rparr>"

text \<open>The closures \<open>tryDirect\<close> (output SOL) and \<open>toUSDC\<close> (output USDC) have the
  same body up to the output mint.\<close>

definition trySell :: "env \<Rightarrow> string \<Rightarrow> string \<Rightarrow> int \<Rightarrow> int \<Rightarrow> world \<Rightarrow> (string + string) \<times> world" where
  "trySell e mnt out amt slip w =
     (case getQuote e (sell_request mnt out amt slip) w of
        (Inl msg, w1) \<Rightarrow> (Inl msg, w1)
      | (Inr None, w1) \<Rightarrow> (Inl ''noviableroute'', w1)
      | (Inr (Some q), w1) \<Rightarrow> doSwap e q w1)"

abbreviation tryDirect :: "env \<Rightarrow> string \<Rightarrow> int \<Rightarrow> int \<Rightarrow> world \<Rightarrow> (string + string) \<times> world" where
  "tryDirect e mnt \<equiv> trySell e mnt SOL_MINT"

abbreviation toUSDC :: "env \<Rightarrow> string \<Rightarrow> int \<Rightarrow> int \<Rightarrow> world \<Rightarrow> (string + string) \<times> world" where
  "toUSDC e mnt \<equiv> trySell e mnt USDC_MINT"

text \<open>The body of the \<open>try\<close> of the two-hop loop: first hop into USDC, then the balance
  read and the best-effort second hop, whose own failures are swallowed.\<close>

definition two_hop :: "env \<Rightarrow> string \<Rightarrow> int \<Rightarrow> int \<Rightarrow> world \<Rightarrow> (string + string) \<times> world" where
  "two_hop e mnt amt slip w =
     (case toUSDC e mnt amt slip w of
        (Inl msg, w1) \<Rightarrow> (Inl msg, w1)
      | (Inr sig1, w1) \<Rightarrow>
          (case getTokenBalance e USDC_MINT w1 of
             (Inl msg, w2) \<Rightarrow> (Inl msg, w2)
           | (Inr usdcBal, w2) \<Rightarrow>
               if usdcBal > 0
               then (case getQuote e (sell_request USDC_MINT SOL_MINT usdcBal slip) w2 of
                       (Inr (Some q2), w3) \<Rightarrow>
                         (case doSwap e q2 w3 of
                            (Inr sig2, w4) \<Rightarrow> (Inr (sig1 @ '' , '' @ sig2), w4)
                          | (Inl _, w4) \<Rightarrow> (Inr sig1, w4))
                     | (_, w3) \<Rightarrow> (Inr sig1, w3))
               else (Inr sig1, w2)))"

text \<open>One \<open>for (const s of slips)\<close> loop with its \<open>catch\<close>: a success or an error that
  is not a no-route failure ends the function (\<open>Some\<close> of the result); a no-route failure
  goes on to the next rung, and the loop falls through (\<open>None\<close>) when no rung is left.\<close>

fun rungs ::
    "(int \<Rightarrow> world \<Rightarrow> (string + string) \<times> world) \<Rightarrow> int list \<Rightarrow> world
       \<Rightarrow> (string + string) option \<times> world" where
  "rungs attempt [] w = (None, w)"
| "rungs attempt (s # ss) w =
     (case attempt s w of
        (Inr sg, w1) \<Rightarrow> (Some (Inr sg), w1)
      | (Inl msg, w1) \<Rightarrow> if is_noroute msg then rungs attempt ss w1 else (Some (Inl msg), w1))"

definition sellTokenForSol ::
    "env \<Rightarrow> trader_config \<Rightarrow> string \<Rightarrow> int \<Rightarrow> world \<Rightarrow> (string + string) \<times> world" where
  "sellTokenForSol e cfg mnt amountRaw w =
     (if mnt = SOL_MINT then (Inl ''nothing to sell: mint is SOL'', w)
      else if amountRaw \<le> 0 then (Inl ''nothing to sell: zero balance'', w)
      else
        (let slips = sell_slips cfg;
             ninetyFive = (amountRaw * 95) div 100
         in case rungs (tryDirect e mnt amountRaw) slips w of
              (Some r, w1) \<Rightarrow> (r, w1)
            | (None, w1) \<Rightarrow>
                (case (if ninetyFive > 0 then rungs (tryDirect e mnt ninetyFive) slips w1
                       else (None, w1)) of
                   (Some r, w2) \<Rightarrow> (r, w2)
                 | (None, w2) \<Rightarrow>
                     (case rungs (two_hop e mnt (if ninetyFive > 0 then ninetyFive else amountRaw))
                                 slips w2 of
                        (Some r, w3) \<Rightarrow> (r, w3)
                      | (None, w3) \<Rightarrow>
                          (Inl ''noviableroute: token illiquid or dust too small'', w3)))))"

subsection \<open>The sell cascade as a list of attempts\<close>

text \<open>
  Every rung of every tier is one attempt: a direct sell of the full amount per rung, a
  direct sell of 95 percent per rung (when that is positive), and a two-hop sell per rung.
  \<open>advance\<close> runs attempts that all fail by no-route and gives the world after them;
  an outcome is decisive when it is a success or an error that is not a no-route failure.
  \<open>cascade\<close> is the rung loop over a list of attempts.
\<close>

type_synonym attempt = "world \<Rightarrow> (string + string) \<times> world"

definition sell_attempts :: "env \<Rightarrow> trader_config \<Rightarrow> string \<Rightarrow> int \<Rightarrow> attempt list" where
  "sell_attempts e cfg mnt amountRaw =
     (let slips = sell_slips cfg;
          ninetyFive = (amountRaw * 95) div 100
      in map (tryDirect e mnt amountRaw) slips
         @ (if ninetyFive > 0 then map (tryDirect e mnt ninetyFive) slips else [])
         @ map (two_hop e mnt (if ninetyFive > 0 then ninetyFive else amountRaw)) slips)"

fun advance :: "attempt list \<Rightarrow> world \<Rightarrow> world option" where
  "advance [] w = Some w"
| "advance (a # as) w =
     (case a w of
        (Inl msg, w1) \<Rightarrow> if is_noroute msg then advance as w1 else None
      | (Inr sg, w1) \<Rightarrow> None)"

definition decisive :: "string + string \<Rightarrow> bool" where
  "decisive r = (case r of Inl msg \<Rightarrow> \<not> is_noroute msg | Inr sg \<Rightarrow> True)"

fun cascade :: "attempt list \<Rightarrow> world \<Rightarrow> (string + string) option \<times> world" where
  "cascade [] w = (None, w)"
| "cascade (a # as) w =
     (case a w of
        (Inr sg, w1) \<Rightarrow> (Some (Inr sg), w1)
      | (Inl msg, w1) \<Rightarrow> if is_noroute msg then cascade as w1 else (Some (Inl msg), w1))"

fun quote_each :: "(int \<Rightarrow> quote_request) \<Rightarrow> int list \<Rightarrow> world \<Rightarrow> world" where
  "quote_each rq [] w = w"
| "quote_each rq (s # ss) w = quote_each rq ss (called (QuoteCall (rq s)) w)"

text \<open>Readers of the call log: the slippage of every quote requested, the request
  behind every quote that was swapped, and the calls made since an earlier world.\<close>

fun quoted_slippages :: "call list \<Rightarrow> int list" where
  "quoted_slippages [] = []"
| "quoted_slippages (QuoteCall req # cs) = slippageBps req # quoted_slippages cs"
| "quoted_slippages (_ # cs) = quoted_slippages cs"

fun swapped :: "call list \<Rightarrow> quote_request list" where
  "swapped [] = []"
| "swapped (SwapCall q # cs) = answers q # swapped cs"
| "swapped (_ # cs) = swapped cs"

definition new_calls :: "world \<Rightarrow> world \<Rightarrow> call list" where
  "new_calls w w' = drop (length (trace w)) (trace w')"

text \<open>What the invariant looks at in one Signal.\<close>

definition pair_key :: "Signal \<Rightarrow> status \<times> string \<times> string" where
  "pair_key s = (status s, wallet s, mint s)"

text \<open>A Signal closed by the stop-loss branch at the price \<open>current\<close>.\<close>

definition stop_loss_closed :: "rat \<Rightarrow> Signal \<Rightarrow> bool" where
  "stop_loss_closed current z =
     (status z = Closed \<and> closeReason z = Some ''stop_loss'' \<and> exitPriceUsd z = Some current)"

text \<open>The quotient of the profit-and-loss fraction without rounding, for the examples.\<close>

definition exact_pnl :: "rat \<Rightarrow> rat \<Rightarrow> rat" where
  "exact_pnl current entry = (current - entry) / entry"

text \<open>A sweep that runs no later than the TTL after \<open>T\<close>; every other input counts
  as such.\<close>

fun early_sweep :: "int \<Rightarrow> input \<Rightarrow> bool" where
  "early_sweep T (CleanMaps now) = (now - T \<le> SEEN_TTL_MS)"
| "early_sweep T _ = True"

definition no_late_sweep :: "int \<Rightarrow> input list \<Rightarrow> bool" where
  "no_late_sweep T inputs = list_all (early_sweep T) inputs"

subsection \<open>Example Signals\<close>

definition example_open :: Signal where
  "example_open =
     \<lparr> ts = 0, wallet = ''W1'', mint = ''M1'', amount = 100, entryPriceUsd = Some 1,
       symbol = None, status = Open, stopLossPct = - (1 / 2), source = Some Birdeye,
       updatedTs = Some 0, occurrences = Some 1, closedTs = None, closeReason = None,
       trader = None, exitPriceUsd = None, exitPnlPct = None \<rparr>"

definition example_closed :: Signal where
  "example_closed =
     \<lparr> ts = 1000, wallet = ''W1'', mint = ''M1'', amount = 100, entryPriceUsd = Some 1,
       symbol = None, status = Closed, stopLossPct = - (4 / 5), source = Some Birdeye,
       updatedTs = Some 1000, occurrences = Some 1, closedTs = Some 5000,
       closeReason = Some ''sold_by_wallet'', trader = None, exitPriceUsd = None,
       exitPnlPct = None \<rparr>"

definition example_unpriced :: Signal where
  "example_unpriced = example_open\<lparr> entryPriceUsd := None \<rparr>"

definition example_buy :: buy_params where
  "example_buy =
     \<lparr> b_wallet = ''W1'', b_mint = ''M1'', b_amount = 50, b_stopLossPct = - (4 / 5),
       b_source = Some Birdeye, b_priceUsd = Some (6 / 5), b_symbol = None \<rparr>"

definition example_q :: qualify_result where
  "example_q = \<lparr> q_qualified = True, q_source = Some Birdeye, q_priceUsd = Some (6 / 5),
                  q_symbol = None \<rparr>"

definition example_state :: app_state where
  "example_state =
     \<lparr> seenEventKeys = (\<lambda>_. None), buyLocks = (\<lambda>_. None), signals = [example_open],
       stopLossPctDefault = - (4 / 5), takeProfitPct = None \<rparr>"

definition example_inputs :: "input list" where
  "example_inputs =
     [WebhookBuy ''W1'' (Some ''tx1'') ''M1'' 50 ''50000000'' 60001 example_q None (1 / 20),
      WebhookSell ''W1'' (Some ''tx2'') ''M1'' 50 ''50000000'' 70000 True None,
      WebhookBuy ''W1'' (Some ''tx3'') ''M1'' 50 ''50000000'' 200000 example_q None (1 / 20)]"

definition example_key :: string where
  "example_key = ''tx:M1:SELL''"

definition example_replay :: "int \<Rightarrow> input" where
  "example_replay now = WebhookSell ''W1'' (Some ''tx'') ''M1'' 50 ''50000000'' now True None"

definition cfg_default :: trader_config where
  "cfg_default = \<lparr> AUTO_TRADE = True, JUP_SLIPPAGE_BPS = 200, MAX_SLIPPAGE_BPS = 1100,
                    JUP_PROBE_SOL = None \<rparr>"

definition cfg_low_cap :: trader_config where
  "cfg_low_cap = cfg_default\<lparr> MAX_SLIPPAGE_BPS := 500 \<rparr>"

definition env_no_route :: env where
  "env_no_route = \<lparr> quote_at = (\<lambda>_ _. NoRoute), swap_at = (\<lambda>_ _. SwapFails ''unreachable''),
                     balance_at = (\<lambda>_ _. Balance 0) \<rparr>"

definition world0 :: world where
  "world0 = \<lparr> clock = 0, trace = [], locks = {} \<rparr>"


definition env_quote_error :: env where
  "env_quote_error = \<lparr> quote_at = (\<lambda>_ _. QuoteFails ''fetch failed''),
                        swap_at = (\<lambda>_ _. SwapFails ''unreachable''),
                        balance_at = (\<lambda>_ _. Balance 0) \<rparr>"

definition env_second_hop :: env where
  "env_second_hop =
     \<lparr> quote_at = (\<lambda>n _. if n < 5 then NoRoute else Route 1),
       swap_at = (\<lambda>n _. if n = 6 then Confirmed ''sig1'' else SwapFails ''swap http 500: boom''),
       balance_at = (\<lambda>_ _. Balance 5) \<rparr>"

definition env_probe :: env where
  "env_probe =
     \<lparr> quote_at = (\<lambda>n _. if n = 0 then NoRoute else Route 7),
       swap_at = (\<lambda>_ _. Confirmed ''buysig''),
       balance_at = (\<lambda>_ _. Balance 0) \<rparr>"

definition example_empty :: app_state where
  "example_empty =
     \<lparr> seenEventKeys = (\<lambda>_. None), buyLocks = (\<lambda>_. None), signals = [],
       stopLossPctDefault = - (1 / 2), takeProfitPct = Some (- (9 / 10)) \<rparr>"

definition example_first_buy :: "input list" where
  "example_first_buy =
     [WebhookBuy ''W1'' (Some ''tx0'') ''M1'' 50 ''50000000'' 1000 example_q None (1 / 20)]"

definition example_two_buys :: "input list" where
  "example_two_buys =
     [WebhookBuy ''W1'' (Some ''tx0'') ''M1'' 50 ''50000000'' 1000 example_q None (1 / 20),
      WebhookBuy ''W2'' (Some ''tx1'') ''M2'' 80 ''80000000'' 2000 example_q None (1 / 20)]"

definition example_unannounced :: input where
  "example_unannounced = WebhookSell ''W1'' (Some ''tx'') ''M1'' 50 ''50000000'' 0 False None"

definition example_rebuy :: input where
  "example_rebuy =
     WebhookBuy ''W1'' (Some ''tx9'') ''M1'' 50 ''50000000'' 280000 example_q None (1 / 20)"

definition env_balance_fails :: env where
  "env_balance_fails =
     \<lparr> quote_at = (\<lambda>_ _. Route 1), swap_at = (\<lambda>_ _. Confirmed ''sig1''),
       balance_at = (\<lambda>_ _. BalanceFails ''rpc down'') \<rparr>"

section \<open>Properties of the Position Store\<close>

subsection \<open>Auxiliary facts\<close>

lemma findIndex_Some:
  "findIndex P xs = Some i \<Longrightarrow> i < length xs \<and> P (xs ! i) \<and> (\<forall>j<i. \<not> P (xs ! j))"
proof (induction xs arbitrary: i)
  case Nil
  then show ?case by simp
next
  case (Cons x xs)
  show ?case
  proof (cases "P x")
    case True
    with Cons.prems show ?thesis by simp
  next
    case False
    with Cons.prems obtain k where k: "findIndex P xs = Some k" "i = Suc k"
      by (auto split: option.splits)
    from Cons.IH[OF k(1)] have ih: "k < length xs" "P (xs ! k)" "\<forall>j<k. \<not> P (xs ! j)"
      by auto
    show ?thesis using k ih False by (auto simp: nth_Cons split: nat.splits)
  qed
qed

lemma findIndex_None: "findIndex P xs = None \<longleftrightarrow> (\<forall>x\<in>set xs. \<not> P x)"
  by (induction xs) (auto split: option.splits)

lemma close_one_not_open: "\<not> is_open_for w m (close_one r now s)"
  by (simp add: is_open_for_def close_one_def)

lemma closeByWalletAndMint_no_open:
  assumes "\<forall>s\<in>set list. \<not> is_open_for w m s"
  shows "closeByWalletAndMint w m reason now list = (list, 0)"
proof -
  from assms have "filter (is_open_for w m) list = []"
    by (simp add: filter_empty_conv)
  then show ?thesis
    by (simp add: closeByWalletAndMint_def Let_def)
qed

lemma closeByWalletAndMint_none_open:
  assumes "s \<in> set (fst (closeByWalletAndMint w m r now list))"
  shows "\<not> is_open_for w m s"
proof (cases "filter (is_open_for w m) list = []")
  case True
  with assms have "s \<in> set list"
    by (simp add: closeByWalletAndMint_def Let_def)
  moreover from True have "\<forall>x\<in>set list. \<not> is_open_for w m x"
    by (simp add: filter_empty_conv)
  ultimately show ?thesis by blast
next
  case False
  with assms obtain x where "x \<in> set list" and
    "s = (if is_open_for w m x
          then close_one (case r of None \<Rightarrow> ''sold_by_wallet'' | Some y \<Rightarrow> y) now x else x)"
    by (auto simp: closeByWalletAndMint_def Let_def)
  then show ?thesis
    by (cases "is_open_for w m x") (simp_all add: close_one_not_open)
qed

subsection \<open>Closing is idempotent\<close>

text \<open>
  Claim C3. When every Signal of the pair (wallet, mint) is already closed,
  \<open>closeByWalletAndMint\<close> returns the count 0 and the stored list is the list that was
  loaded: no Signal changes, so \<open>closedTs\<close> and \<open>closeReason\<close> keep their values.
\<close>

theorem closeByWalletAndMint_idempotent:
  assumes "\<forall>s\<in>set list. wallet s = w \<and> mint s = m \<longrightarrow> status s = Closed"
  shows "closeByWalletAndMint w m reason now list = (list, 0)"
proof (rule closeByWalletAndMint_no_open)
  show "\<forall>s\<in>set list. \<not> is_open_for w m s"
    using assms by (auto simp: is_open_for_def)
qed

theorem closeByWalletAndMint_idempotent_witness:
  "wallet example_closed = ''W1'' \<and> mint example_closed = ''M1''
   \<and> status example_closed = Closed
   \<and> closeByWalletAndMint ''W1'' ''M1'' (Some ''stop_loss'') 9000 [example_closed]
       = ([example_closed], 0)"
  using closeByWalletAndMint_idempotent [of "[example_closed]" "''W1''" "''M1''" "Some ''stop_loss''" 9000]
  by (simp add: example_closed_def)

text \<open>The same fact for two calls in a row, from any state: the second call closes
  nothing and stores nothing.\<close>

lemma closeByWalletAndMint_twice:
  "closeByWalletAndMint w m r2 t2 (fst (closeByWalletAndMint w m r1 t1 list))
     = (fst (closeByWalletAndMint w m r1 t1 list), 0)"
  by (rule closeByWalletAndMint_no_open) (blast dest: closeByWalletAndMint_none_open)


subsection \<open>What each operation does to the Signal at an index\<close>

lemma closed_not_open: "status s = Closed \<Longrightarrow> \<not> is_open_for w m s"
  by (simp add: is_open_for_def)

lemma upsertBuy_keeps_closed:
  assumes "i < length list" and "status (list ! i) = Closed"
  shows "fst (upsertBuy p now list) ! i = list ! i"
proof (cases "findIndex (is_open_for (b_wallet p) (b_mint p)) list")
  case None
  with assms show ?thesis by (simp add: upsertBuy_def nth_append)
next
  case (Some idx)
  from findIndex_Some[OF Some] have "is_open_for (b_wallet p) (b_mint p) (list ! idx)" by simp
  with assms(2) have "idx \<noteq> i" by (auto simp: is_open_for_def)
  with Some assms show ?thesis by (simp add: upsertBuy_def Let_def nth_append)
qed

lemma closeByWalletAndMint_nth:
  assumes "i < length list"
  shows "fst (closeByWalletAndMint w m reason now list) ! i
         = (if is_open_for w m (list ! i)
            then close_one (case reason of None \<Rightarrow> ''sold_by_wallet'' | Some x \<Rightarrow> x) now (list ! i)
            else list ! i)"
proof (cases "filter (is_open_for w m) list = []")
  case True
  then have "\<not> is_open_for w m (list ! i)"
    using assms by (auto simp: filter_empty_conv)
  with True show ?thesis
    by (simp add: closeByWalletAndMint_def Let_def)
next
  case False
  with assms show ?thesis
    by (simp add: closeByWalletAndMint_def Let_def)
qed

lemma closeByWalletMintWithExit_nth:
  assumes "i < length list"
  shows "fst (closeByWalletMintWithExit w m x r now list) ! i
         = (if is_open_for w m (list ! i) then close_exit_one x r now (list ! i) else list ! i)"
proof (cases "filter (is_open_for w m) list = []")
  case True
  then have "\<not> is_open_for w m (list ! i)"
    using assms by (auto simp: filter_empty_conv)
  with True show ?thesis
    by (simp add: closeByWalletMintWithExit_def Let_def)
next
  case False
  with assms show ?thesis
    by (simp add: closeByWalletMintWithExit_def Let_def)
qed

lemma updateOpenSignalsStopLoss_nth:
  assumes "i < length list"
  shows "fst (updateOpenSignalsStopLoss pct list) ! i
         = (if status (list ! i) = Open \<and> stopLossPct (list ! i) \<noteq> pct
            then (list ! i)\<lparr> stopLossPct := pct \<rparr> else list ! i)"
proof (cases "filter (\<lambda>s. status s = Open \<and> stopLossPct s \<noteq> pct) list = []")
  case True
  then have "\<not> (status (list ! i) = Open \<and> stopLossPct (list ! i) \<noteq> pct)"
    using assms by (auto simp: filter_empty_conv)
  with True show ?thesis
    by (simp add: updateOpenSignalsStopLoss_def Let_def)
next
  case False
  with assms show ?thesis
    by (simp add: updateOpenSignalsStopLoss_def Let_def)
qed

lemma attachTraderBuy_keeps_closed:
  assumes "i < length list" and "status (list ! i) = Closed" and "status sig = Open"
  shows "attachTraderBuy sig j sp list ! i = list ! i"
proof (cases "findIndex (\<lambda>x. ts x = ts sig \<and> wallet x = wallet sig \<and> mint x = mint sig
                          \<and> status x = status sig) list")
  case None
  then show ?thesis by (simp add: attachTraderBuy_def)
next
  case (Some k)
  from findIndex_Some[OF Some] have "status (list ! k) = status sig" by simp
  with assms have "k \<noteq> i" by auto
  with Some show ?thesis by (simp add: attachTraderBuy_def Let_def)
qed

lemma attachTraderSell_nth:
  assumes "i < length list"
  shows "attachTraderSell sig j list ! i = list ! i
       \<or> attachTraderSell sig j list ! i
           = (list ! i)\<lparr> trader := Some ((trader_or_new (list ! i))
                \<lparr> sellSigs := Some (or_empty (sellSigs (trader_or_new (list ! i))) @ [j]) \<rparr>) \<rparr>"
proof (cases "findIndex (\<lambda>x. ts x = ts sig \<and> wallet x = wallet sig \<and> mint x = mint sig) list")
  case None
  then show ?thesis by (simp add: attachTraderSell_def)
next
  case (Some k)
  then have eq: "attachTraderSell sig j list
      = list[k := (list ! k)\<lparr> trader := Some ((trader_or_new (list ! k))
                \<lparr> sellSigs := Some (or_empty (sellSigs (trader_or_new (list ! k))) @ [j]) \<rparr>) \<rparr>]"
    by (simp only: attachTraderSell_def Let_def option.case)
  show ?thesis
  proof (cases "k = i")
    case True
    with assms show ?thesis by (simp only: eq nth_list_update_eq simp_thms)
  next
    case False
    then show ?thesis by (simp only: eq nth_list_update_neq simp_thms)
  qed
qed

subsection \<open>Closed Signals are frozen\<close>

text \<open>
  Claim C9. A Signal that is closed is left exactly as it is (every field) by
  \<open>upsertBuy\<close>, \<open>closeByWalletAndMint\<close>, \<open>closeByWalletMintWithExit\<close> and
  \<open>updateOpenSignalsStopLoss\<close>. \<open>attachTraderSell\<close> either leaves it as it is or
  appends the confirmation to \<open>trader.sellSigs\<close> and changes nothing else.
  \<open>attachTraderBuy\<close>, given the open Signal that \<open>upsertBuy\<close> returned, matches
  on \<open>status\<close> and so never touches a closed Signal either.
\<close>

theorem closed_signal_frozen:
  assumes "i < length list" and "status (list ! i) = Closed"
  shows "fst (upsertBuy p now list) ! i = list ! i
       \<and> fst (closeByWalletAndMint w m reason now list) ! i = list ! i
       \<and> fst (closeByWalletMintWithExit w m x r now list) ! i = list ! i
       \<and> fst (updateOpenSignalsStopLoss pct list) ! i = list ! i
       \<and> (attachTraderSell sig j list ! i = list ! i
          \<or> attachTraderSell sig j list ! i
               = (list ! i)\<lparr> trader := Some ((trader_or_new (list ! i))
                    \<lparr> sellSigs := Some (or_empty (sellSigs (trader_or_new (list ! i))) @ [j]) \<rparr>) \<rparr>)
       \<and> (status sig' = Open \<longrightarrow> attachTraderBuy sig' j sp list ! i = list ! i)"
  using assms
  by (simp add: upsertBuy_keeps_closed closeByWalletAndMint_nth closeByWalletMintWithExit_nth
      updateOpenSignalsStopLoss_nth closed_not_open attachTraderSell_nth
      attachTraderBuy_keeps_closed)

theorem closed_signal_frozen_witness:
  "status ([example_closed, example_open] ! 0) = Closed
   \<and> status example_open = Open
   \<and> fst (upsertBuy example_buy 1000 [example_closed, example_open]) ! 0 = example_closed
   \<and> fst (closeByWalletAndMint ''W1'' ''M1'' None 1000 [example_closed, example_open]) ! 0
       = example_closed
   \<and> fst (closeByWalletMintWithExit ''W1'' ''M1'' (2 / 5) ''stop_loss'' 1000
            [example_closed, example_open]) ! 0 = example_closed
   \<and> fst (updateOpenSignalsStopLoss (- (9 / 10)) [example_closed, example_open]) ! 0
       = example_closed
   \<and> attachTraderBuy example_open ''buysig'' (Some (1 / 20)) [example_closed, example_open] ! 0
       = example_closed"
proof -
  have h: "0 < length [example_closed, example_open]"
    "status ([example_closed, example_open] ! 0) = Closed"
    by (simp_all add: example_closed_def)
  have o: "status example_open = Open"
    by (simp add: example_open_def)
  note t = closed_signal_frozen [OF h, where p = example_buy and now = 1000
      and w = "''W1''" and m = "''M1''" and reason = None and x = "2 / 5"
      and r = "''stop_loss''" and pct = "- (9 / 10)" and sig = example_closed
      and j = "''buysig''" and sig' = example_open and sp = "Some (1 / 20)"]
  from t have a: "fst (upsertBuy example_buy 1000 [example_closed, example_open]) ! 0
      = [example_closed, example_open] ! 0"
    by (rule conjunct1)
  from t have b: "fst (closeByWalletAndMint ''W1'' ''M1'' None 1000 [example_closed, example_open]) ! 0
      = [example_closed, example_open] ! 0"
    by blast
  from t have c: "fst (closeByWalletMintWithExit ''W1'' ''M1'' (2 / 5) ''stop_loss'' 1000
            [example_closed, example_open]) ! 0 = [example_closed, example_open] ! 0"
    by blast
  from t have d: "fst (updateOpenSignalsStopLoss (- (9 / 10)) [example_closed, example_open]) ! 0
      = [example_closed, example_open] ! 0"
    by blast
  from t o have e: "attachTraderBuy example_open ''buysig'' (Some (1 / 20))
      [example_closed, example_open] ! 0 = [example_closed, example_open] ! 0"
    by blast
  show ?thesis
    using h(2) o a b c d e by simp
qed

text \<open>On the closed example, \<open>attachTraderSell\<close> does append, and only there.\<close>

lemma attachTraderSell_example:
  "attachTraderSell example_closed ''sellsig'' [example_closed, example_open]
     = [example_closed\<lparr> trader := Some \<lparr> buySigs = None, sellSigs = Some [''sellsig''],
                                           solSpent = None \<rparr> \<rparr>, example_open]"
  by (simp add: attachTraderSell_def trader_or_new_def empty_trader_def or_empty_def
      example_closed_def example_open_def)

subsection \<open>Closing with an exit price\<close>

text \<open>
  Claim C10. Every Signal that \<open>closeByWalletMintWithExit\<close> closes (every open Signal
  of the pair) gets status closed, the given reason, the close time and the exit price.
  \<open>exitPnlPct\<close> is set to \<open>(exit - entry) / entry\<close> only when the entry price is
  present and strictly positive; otherwise the field keeps what it held, which is
  nothing on a Signal that has never been closed.
\<close>

theorem closeByWalletMintWithExit_stamps:
  assumes "i < length list" and "is_open_for w m (list ! i)"
  shows "status (fst (closeByWalletMintWithExit w m x r now list) ! i) = Closed
       \<and> closeReason (fst (closeByWalletMintWithExit w m x r now list) ! i) = Some r
       \<and> closedTs (fst (closeByWalletMintWithExit w m x r now list) ! i) = Some now
       \<and> exitPriceUsd (fst (closeByWalletMintWithExit w m x r now list) ! i) = Some x
       \<and> exitPnlPct (fst (closeByWalletMintWithExit w m x r now list) ! i)
           = (case entryPriceUsd (list ! i) of
                Some e \<Rightarrow> if e > 0 then Some ((x - e) / e) else exitPnlPct (list ! i)
              | None \<Rightarrow> exitPnlPct (list ! i))"
  using assms
  by (simp add: closeByWalletMintWithExit_nth close_exit_one_def Let_def split: option.splits)

theorem closeByWalletMintWithExit_stamps_witness:
  "is_open_for ''W1'' ''M1'' ([example_unpriced, example_open] ! 0)
   \<and> status (fst (closeByWalletMintWithExit ''W1'' ''M1'' (2 / 5) ''stop_loss'' 7000
                 [example_unpriced, example_open]) ! 0) = Closed
   \<and> closeReason (fst (closeByWalletMintWithExit ''W1'' ''M1'' (2 / 5) ''stop_loss'' 7000
                 [example_unpriced, example_open]) ! 0) = Some ''stop_loss''
   \<and> exitPriceUsd (fst (closeByWalletMintWithExit ''W1'' ''M1'' (2 / 5) ''stop_loss'' 7000
                 [example_unpriced, example_open]) ! 0) = Some (2 / 5)
   \<and> exitPnlPct (fst (closeByWalletMintWithExit ''W1'' ''M1'' (2 / 5) ''stop_loss'' 7000
                 [example_unpriced, example_open]) ! 0) = None"
  using closeByWalletMintWithExit_stamps [of 0 "[example_unpriced, example_open]"
      "''W1''" "''M1''" "2 / 5" "''stop_loss''" 7000]
  by (simp add: example_unpriced_def example_open_def is_open_for_def)

text \<open>The priced example entered at 1 and leaves at 0.4: the PnL fraction is -0.6.\<close>

lemma closeByWalletMintWithExit_example:
  "exitPnlPct (fst (closeByWalletMintWithExit ''W1'' ''M1'' (2 / 5) ''stop_loss'' 7000
                 [example_unpriced, example_open]) ! 1) = Some (- (3 / 5))"
  by (simp add: closeByWalletMintWithExit_nth close_exit_one_def example_unpriced_def
      example_open_def is_open_for_def)

text \<open>Signals enter the store through \<open>upsertBuy\<close> with no exit PnL, and a merge keeps
  the field.\<close>

lemma exitPnlPct_fresh:
  "exitPnlPct (newSig p now) = None \<and> exitPnlPct (merged p now s) = exitPnlPct s"
  by (simp add: newSig_def merged_def)


subsection \<open>Merging a sequence of buys\<close>

lemma findIndex_append_last:
  "\<forall>x\<in>set xs. \<not> P x \<Longrightarrow> P s \<Longrightarrow> findIndex P (xs @ [s]) = Some (length xs)"
  by (induction xs) simp_all

lemma upsertBuy_create:
  assumes "\<forall>x\<in>set xs. \<not> is_open_for (b_wallet p) (b_mint p) x"
  shows "upsertBuy p now xs = (xs @ [newSig p now], newSig p now)"
proof -
  from assms have "findIndex (is_open_for (b_wallet p) (b_mint p)) xs = None"
    by (simp add: findIndex_None)
  then show ?thesis by (simp add: upsertBuy_def)
qed

lemma upsertBuy_merge:
  assumes "\<forall>x\<in>set xs. \<not> is_open_for (b_wallet p) (b_mint p) x"
      and "is_open_for (b_wallet p) (b_mint p) s"
      and "now - last_update s \<le> MERGE_WINDOW_MS"
  shows "upsertBuy p now (xs @ [s]) = (xs @ [merged p now s], merged p now s)"
proof -
  from assms(1,2) have "findIndex (is_open_for (b_wallet p) (b_mint p)) (xs @ [s]) = Some (length xs)"
    by (rule findIndex_append_last)
  with assms(3) show ?thesis by (simp add: upsertBuy_def Let_def)
qed

lemma upsertBuy_append:
  assumes "\<forall>x\<in>set xs. \<not> is_open_for (b_wallet p) (b_mint p) x"
      and "is_open_for (b_wallet p) (b_mint p) s"
      and "\<not> now - last_update s \<le> MERGE_WINDOW_MS"
  shows "upsertBuy p now (xs @ [s]) = (xs @ [s, newSig p now], newSig p now)"
proof -
  from assms(1,2) have "findIndex (is_open_for (b_wallet p) (b_mint p)) (xs @ [s]) = Some (length xs)"
    by (rule findIndex_append_last)
  with assms(3) show ?thesis by (simp add: upsertBuy_def Let_def)
qed

lemma merged_fields:
  "amount (merged p now s) = amount s + b_amount p"
  "occurrences (merged p now s) = Some ((case occurrences s of None \<Rightarrow> 1 | Some k \<Rightarrow> k) + 1)"
  "entryPriceUsd (merged p now s) = mergeVWAP (amount s) (entryPriceUsd s) (b_amount p) (b_priceUsd p)"
  "last_update (merged p now s) = now"
  "is_open_for w m (merged p now s) = is_open_for w m s"
  by (simp_all add: merged_def last_update_def is_open_for_def)

lemma newSig_fields:
  "amount (newSig p now) = b_amount p"
  "occurrences (newSig p now) = Some 1"
  "entryPriceUsd (newSig p now) = b_priceUsd p"
  "last_update (newSig p now) = now"
  "is_open_for w m (newSig p now) = (b_wallet p = w \<and> b_mint p = m)"
  by (auto simp add: newSig_def last_update_def is_open_for_def)

lemma upsertBuys_merging:
  assumes "\<forall>x\<in>set xs. \<not> is_open_for w m x"
      and "is_open_for w m s"
      and "occurrences s = Some k"
      and "\<forall>e\<in>set es. b_wallet (fst e) = w \<and> b_mint (fst e) = m"
      and "within_window (last_update s # map snd es)"
  shows "\<exists>s'. upsertBuys es (xs @ [s], Some s) = (xs @ [s'], Some s')
           \<and> amount s' = amount s + sum_list (map (\<lambda>e. b_amount (fst e)) es)
           \<and> occurrences s' = Some (k + int (length es))
           \<and> entryPriceUsd s' = vwap_fold (amount s) (entryPriceUsd s) es"
  using assms
proof (induction es arbitrary: s k)
  case Nil
  then show ?case by simp
next
  case (Cons e es)
  obtain p now where e: "e = (p, now)" by (cases e)
  from Cons.prems(4) e have pw: "b_wallet p = w" "b_mint p = m" by auto
  from Cons.prems(5) e have win: "now - last_update s \<le> MERGE_WINDOW_MS"
    and rest: "within_window (now # map snd es)" by auto
  have step: "upsertBuy p now (xs @ [s]) = (xs @ [merged p now s], merged p now s)"
    using Cons.prems(1,2) win pw by (intro upsertBuy_merge) auto
  have o: "is_open_for w m (merged p now s)"
    using Cons.prems(2) by (simp add: merged_fields)
  have k: "occurrences (merged p now s) = Some (k + 1)"
    using Cons.prems(3) by (simp add: merged_fields)
  have w: "within_window (last_update (merged p now s) # map snd es)"
    using rest by (simp add: merged_fields)
  from Cons.IH[OF Cons.prems(1) o k _ w] Cons.prems(4)
  obtain s' where s': "upsertBuys es (xs @ [merged p now s], Some (merged p now s)) = (xs @ [s'], Some s')"
     "amount s' = amount (merged p now s) + sum_list (map (\<lambda>e. b_amount (fst e)) es)"
     "occurrences s' = Some (k + 1 + int (length es))"
     "entryPriceUsd s' = vwap_fold (amount (merged p now s)) (entryPriceUsd (merged p now s)) es"
    by auto
  show ?case
    using s' step e by (intro exI[of _ s']) (simp add: merged_fields)
qed


lemma vwap_fold_unpriced:
  "\<forall>e\<in>set es. b_priceUsd (fst e) = None \<Longrightarrow> vwap_fold a None es = None"
  by (induction es arbitrary: a) (simp_all add: mergeVWAP_def truthy_def)

lemma mergeVWAP_priced:
  assumes "0 < A" and "0 < V" and "0 < a" and "0 < p"
  shows "mergeVWAP A (Some (V / A)) a (Some p) = Some ((V + p * a) / (A + a))"
proof -
  from assms have t: "truthy (Some (V / A))" "truthy (Some p)" "\<not> A + a \<le> 0"
    by (simp_all add: truthy_def)
  from assms have "V / A * A = V" by simp
  with t show ?thesis by (simp add: mergeVWAP_def Let_def)
qed

lemma vwap_fold_priced:
  assumes "0 < A" and "0 < V"
      and "\<forall>e\<in>set es. (\<exists>p. b_priceUsd (fst e) = Some p \<and> 0 < p) \<and> 0 < b_amount (fst e)"
  shows "vwap_fold A (Some (V / A)) es
         = Some ((V + sum_list (map (\<lambda>e. the (b_priceUsd (fst e)) * b_amount (fst e)) es))
                 / (A + sum_list (map (\<lambda>e. b_amount (fst e)) es)))"
  using assms
proof (induction es arbitrary: A V)
  case Nil
  then show ?case by simp
next
  case (Cons e es)
  from Cons.prems(3) obtain p where p: "b_priceUsd (fst e) = Some p" "0 < p" "0 < b_amount (fst e)"
    by auto
  have m: "mergeVWAP A (Some (V / A)) (b_amount (fst e)) (Some p)
           = Some ((V + p * b_amount (fst e)) / (A + b_amount (fst e)))"
    using Cons.prems(1,2) p(3,2) by (rule mergeVWAP_priced)
  have A': "0 < A + b_amount (fst e)" using Cons.prems(1) p(3) by simp
  have V': "0 < V + p * b_amount (fst e)" using Cons.prems(2) p(2,3) by (simp add: add_pos_pos)
  from Cons.IH[OF A' V'] Cons.prems(3)
  have "vwap_fold (A + b_amount (fst e)) (Some ((V + p * b_amount (fst e)) / (A + b_amount (fst e)))) es
        = Some ((V + p * b_amount (fst e) + sum_list (map (\<lambda>e. the (b_priceUsd (fst e)) * b_amount (fst e)) es))
                 / (A + b_amount (fst e) + sum_list (map (\<lambda>e. b_amount (fst e)) es)))"
    by simp
  then show ?case using p(1) m by (simp add: add.assoc)
qed


text \<open>
  Claim C2, as the code has it. A non-empty sequence of buy events for one (wallet, mint),
  each within the merge window of the one before, upserted into a store with no open
  Signal for the pair, ends in one Signal appended to the store: its \<open>amount\<close> is the sum
  of the event amounts and its \<open>occurrences\<close> is the number of events. Its
  \<open>entryPriceUsd\<close> is the running merge \<open>vwap_fold\<close>: undefined when no event is
  priced, and the volume-weighted average of the events when every event has a positive
  price and a positive amount. With priced and unpriced events mixed, an unpriced event
  keeps the running price and still adds its amount to the weight of that price.
\<close>

theorem upsertBuys_merge_sequence:
  assumes "es \<noteq> []"
      and "\<forall>e\<in>set es. b_wallet (fst e) = w \<and> b_mint (fst e) = m"
      and "\<forall>s\<in>set list. \<not> is_open_for w m s"
      and "within_window (map snd es)"
  shows "\<exists>s. upsertBuys es (list, r) = (list @ [s], Some s)
           \<and> amount s = sum_list (map (\<lambda>e. b_amount (fst e)) es)
           \<and> occurrences s = Some (int (length es))
           \<and> entryPriceUsd s
               = vwap_fold (b_amount (fst (hd es))) (b_priceUsd (fst (hd es))) (tl es)
           \<and> ((\<forall>e\<in>set es. b_priceUsd (fst e) = None) \<longrightarrow> entryPriceUsd s = None)
           \<and> ((\<forall>e\<in>set es. (\<exists>p. b_priceUsd (fst e) = Some p \<and> 0 < p) \<and> 0 < b_amount (fst e))
                \<longrightarrow> entryPriceUsd s = spec_vwap es)"
proof -
  from assms(1) obtain p now rest where es: "es = (p, now) # rest"
    by (cases es) auto
  from assms(2) es have pw: "b_wallet p = w" "b_mint p = m"
    and restw: "\<forall>e\<in>set rest. b_wallet (fst e) = w \<and> b_mint (fst e) = m" by auto
  have first: "upsertBuy p now list = (list @ [newSig p now], newSig p now)"
    using assms(3) pw by (intro upsertBuy_create) simp
  have o: "is_open_for w m (newSig p now)" using pw by (simp add: newSig_fields)
  have k: "occurrences (newSig p now) = Some 1" by (simp add: newSig_fields)
  have win: "within_window (last_update (newSig p now) # map snd rest)"
    using assms(4) es by (simp add: newSig_fields)
  from upsertBuys_merging[OF assms(3) o k restw win]
  obtain s where s: "upsertBuys rest (list @ [newSig p now], Some (newSig p now)) = (list @ [s], Some s)"
     "amount s = b_amount p + sum_list (map (\<lambda>e. b_amount (fst e)) rest)"
     "occurrences s = Some (1 + int (length rest))"
     "entryPriceUsd s = vwap_fold (b_amount p) (b_priceUsd p) rest"
    by (auto simp: newSig_fields)
  have run: "upsertBuys es (list, r) = (list @ [s], Some s)"
    using es first s(1) by simp
  have unpriced: "entryPriceUsd s = None" if "\<forall>e\<in>set es. b_priceUsd (fst e) = None"
  proof -
    from that es have "b_priceUsd p = None" "\<forall>e\<in>set rest. b_priceUsd (fst e) = None" by auto
    with s(4) show ?thesis by (simp add: vwap_fold_unpriced)
  qed
  have allpriced: "entryPriceUsd s = spec_vwap es"
    if h: "\<forall>e\<in>set es. (\<exists>p. b_priceUsd (fst e) = Some p \<and> 0 < p) \<and> 0 < b_amount (fst e)"
  proof -
    from h es obtain q where q: "b_priceUsd p = Some q" "0 < q" "0 < b_amount p"
      and hr: "\<forall>e\<in>set rest. (\<exists>p. b_priceUsd (fst e) = Some p \<and> 0 < p) \<and> 0 < b_amount (fst e)"
      by auto
    have V: "0 < q * b_amount p" using q by simp
    have "q * b_amount p / b_amount p = q" using q(3) by simp
    with vwap_fold_priced[OF q(3) V hr]
    have f: "vwap_fold (b_amount p) (Some q) rest
         = Some ((q * b_amount p + sum_list (map (\<lambda>e. the (b_priceUsd (fst e)) * b_amount (fst e)) rest))
                 / (b_amount p + sum_list (map (\<lambda>e. b_amount (fst e)) rest)))"
      by simp
    from h have "priced es = es" by (auto simp: priced_def filter_id_conv)
    then have "spec_vwap es = Some (sum_list (map (\<lambda>e. the (b_priceUsd (fst e)) * b_amount (fst e)) es)
                 / sum_list (map (\<lambda>e. b_amount (fst e)) es))"
      using assms(1) by (simp add: spec_vwap_def)
    with f s(4) q(1) es show ?thesis by simp
  qed
  show ?thesis
    using run s(2,3,4) unpriced allpriced es by (intro exI[of _ s]) simp
qed


theorem upsertBuys_merge_sequence_witness:
  "\<exists>s. upsertBuys [ev 100 (Some 1) 0, ev 50 (Some (6 / 5)) 10000] ([], None) = ([s], Some s)
       \<and> amount s = 150 \<and> occurrences s = Some 2 \<and> entryPriceUsd s = Some (16 / 15)"
proof -
  have h: "[ev 100 (Some 1) 0, ev 50 (Some (6 / 5)) 10000] \<noteq> []"
    "\<forall>e\<in>set [ev 100 (Some 1) 0, ev 50 (Some (6 / 5)) 10000].
        b_wallet (fst e) = ''W1'' \<and> b_mint (fst e) = ''M1''"
    "\<forall>s\<in>set ([] :: Signal list). \<not> is_open_for ''W1'' ''M1'' s"
    "within_window (map snd [ev 100 (Some 1) 0, ev 50 (Some (6 / 5)) 10000])"
    by (simp_all add: ev_def MERGE_WINDOW_MS_def)
  have p: "\<forall>e\<in>set [ev 100 (Some 1) 0, ev 50 (Some (6 / 5)) 10000].
        (\<exists>p. b_priceUsd (fst e) = Some p \<and> 0 < p) \<and> 0 < b_amount (fst e)"
    by (simp add: ev_def) (rule exI [of _ "6 / 5"], simp)
  have v: "spec_vwap [ev 100 (Some 1) 0, ev 50 (Some (6 / 5)) 10000] = Some (16 / 15)"
    by code_simp
  have a: "sum_list (map (\<lambda>e. b_amount (fst e)) [ev 100 (Some 1) 0, ev 50 (Some (6 / 5)) 10000]) = 150"
    by (simp add: ev_def)
  from upsertBuys_merge_sequence [OF h, of None] p v a show ?thesis
    by auto
qed

text \<open>The claim as written fails where an unpriced event precedes two priced ones: the
  code answers 1.4, the average over the priced events alone is 1.6.\<close>

theorem upsertBuys_vwap_counterexample:
  "map_option entryPriceUsd
     (snd (upsertBuys [ev 100 None 0, ev 50 (Some (6 / 5)) 1000, ev 50 (Some 2) 2000] ([], None)))
     = Some (Some (7 / 5))
   \<and> spec_vwap [ev 100 None 0, ev 50 (Some (6 / 5)) 1000, ev 50 (Some 2) 2000] = Some (8 / 5)
   \<and> within_window (map snd [ev 100 None 0, ev 50 (Some (6 / 5)) 1000, ev 50 (Some 2) 2000])"
  by code_simp


section \<open>The invariant: one open Signal per (wallet, mint)\<close>

lemma open_pairs_via_key:
  "open_pairs list = map snd (filter (\<lambda>k. fst k = Open) (map pair_key list))"
  by (induction list) (simp_all add: open_pairs_def pair_key_def)

lemma open_pairs_cong:
  "map pair_key xs = map pair_key ys \<Longrightarrow> open_pairs xs = open_pairs ys"
  by (simp add: open_pairs_via_key)

lemma open_pairs_update:
  assumes "i < length xs" and "pair_key s' = pair_key (xs ! i)"
  shows "open_pairs (xs[i := s']) = open_pairs xs"
proof (rule open_pairs_cong)
  from assms show "map pair_key (xs[i := s']) = map pair_key xs"
    by (simp add: map_update list_update_same_conv)
qed

lemma open_pairs_map:
  assumes "\<And>s. pair_key (h s) = pair_key s"
  shows "open_pairs (map h xs) = open_pairs xs"
  by (rule open_pairs_cong) (simp add: assms)

lemma open_pairs_close:
  assumes "\<And>s. is_open_for w m s \<Longrightarrow> status (h s) = Closed"
  shows "open_pairs (map (\<lambda>s. if is_open_for w m s then h s else s) xs)
         = filter (\<lambda>k. k \<noteq> (w, m)) (open_pairs xs)"
  by (induction xs) (auto simp: open_pairs_def is_open_for_def assms)

lemma open_pairs_append:
  "open_pairs (xs @ [s]) = open_pairs xs @ (if status s = Open then [(wallet s, mint s)] else [])"
  by (simp add: open_pairs_def)

lemma open_pairs_mem:
  "(w, m) \<in> set (open_pairs xs) \<longleftrightarrow> (\<exists>s\<in>set xs. is_open_for w m s)"
  by (auto simp: open_pairs_def is_open_for_def)

lemma pair_key_merged: "pair_key (merged p now s) = pair_key s"
  by (simp add: pair_key_def merged_def)

lemma upsertBuy_inv:
  assumes "at_most_one_open list"
      and "\<forall>s\<in>set list. is_open_for (b_wallet p) (b_mint p) s \<longrightarrow> now - last_update s \<le> MERGE_WINDOW_MS"
  shows "at_most_one_open (fst (upsertBuy p now list))"
proof (cases "findIndex (is_open_for (b_wallet p) (b_mint p)) list")
  case None
  then have no: "\<forall>x\<in>set list. \<not> is_open_for (b_wallet p) (b_mint p) x"
    by (simp add: findIndex_None)
  then have "(b_wallet p, b_mint p) \<notin> set (open_pairs list)"
    by (simp add: open_pairs_mem)
  with assms(1) have "distinct (open_pairs (list @ [newSig p now]))"
    by (simp add: open_pairs_append at_most_one_open_def newSig_def)
  with no show ?thesis
    by (simp add: upsertBuy_create at_most_one_open_def)
next
  case (Some idx)
  from findIndex_Some[OF Some] have idx: "idx < length list"
    "is_open_for (b_wallet p) (b_mint p) (list ! idx)" by simp_all
  with assms(2) have "now - last_update (list ! idx) \<le> MERGE_WINDOW_MS"
    by (meson nth_mem)
  with Some have "fst (upsertBuy p now list) = list[idx := merged p now (list ! idx)]"
    by (simp add: upsertBuy_def Let_def)
  with idx(1) assms(1) show ?thesis
    by (simp add: at_most_one_open_def open_pairs_update pair_key_merged)
qed

lemma guard_no_open:
  "\<not> hasOpenSignalForMint m list \<Longrightarrow> \<forall>s\<in>set list. \<not> is_open_for w m s"
  by (auto simp: hasOpenSignalForMint_def list_ex_iff is_open_for_def)

lemma closeByWalletAndMint_inv:
  assumes "at_most_one_open list"
  shows "at_most_one_open (fst (closeByWalletAndMint w m r now list))"
proof -
  have "open_pairs (map (\<lambda>s. if is_open_for w m s then close_one x now s else s) list)
         = filter (\<lambda>k. k \<noteq> (w, m)) (open_pairs list)" for x
    by (rule open_pairs_close) (simp add: close_one_def)
  with assms show ?thesis
    by (simp add: closeByWalletAndMint_def Let_def at_most_one_open_def)
qed

lemma closeByWalletMintWithExit_inv:
  assumes "at_most_one_open list"
  shows "at_most_one_open (fst (closeByWalletMintWithExit w m x r now list))"
proof -
  have "open_pairs (map (\<lambda>s. if is_open_for w m s then close_exit_one x r now s else s) list)
         = filter (\<lambda>k. k \<noteq> (w, m)) (open_pairs list)"
    by (rule open_pairs_close) (simp add: close_exit_one_def Let_def split: option.splits)
  with assms show ?thesis
    by (simp add: closeByWalletMintWithExit_def Let_def at_most_one_open_def)
qed

lemma updateOpenSignalsStopLoss_inv:
  assumes "at_most_one_open list"
  shows "at_most_one_open (fst (updateOpenSignalsStopLoss n list))"
proof -
  have "open_pairs (map (\<lambda>s. if status s = Open \<and> stopLossPct s \<noteq> n then s\<lparr> stopLossPct := n \<rparr> else s) list)
         = open_pairs list"
    by (rule open_pairs_map) (simp add: pair_key_def)
  with assms show ?thesis
    by (simp add: updateOpenSignalsStopLoss_def Let_def at_most_one_open_def)
qed

lemma attachTraderBuy_pairs: "open_pairs (attachTraderBuy sig j sp list) = open_pairs list"
proof (cases "findIndex (\<lambda>x. ts x = ts sig \<and> wallet x = wallet sig \<and> mint x = mint sig
                          \<and> status x = status sig) list")
  case None
  then show ?thesis by (simp add: attachTraderBuy_def)
next
  case (Some k)
  from findIndex_Some[OF Some] have k: "k < length list" by simp
  have "\<exists>t. attachTraderBuy sig j sp list = list[k := (list ! k)\<lparr> trader := t \<rparr>]"
    using Some by (simp only: attachTraderBuy_def Let_def option.case) blast
  then obtain t where "attachTraderBuy sig j sp list = list[k := (list ! k)\<lparr> trader := t \<rparr>]" ..
  with k show ?thesis by (simp add: open_pairs_update pair_key_def)
qed

lemma attachTraderSell_pairs: "open_pairs (attachTraderSell sig j list) = open_pairs list"
proof (cases "findIndex (\<lambda>x. ts x = ts sig \<and> wallet x = wallet sig \<and> mint x = mint sig) list")
  case None
  then show ?thesis by (simp add: attachTraderSell_def)
next
  case (Some k)
  from findIndex_Some[OF Some] have k: "k < length list" by simp
  have "\<exists>t. attachTraderSell sig j list = list[k := (list ! k)\<lparr> trader := t \<rparr>]"
    using Some by (simp only: attachTraderSell_def Let_def option.case) blast
  then obtain t where "attachTraderSell sig j list = list[k := (list ! k)\<lparr> trader := t \<rparr>]" ..
  with k show ?thesis by (simp add: open_pairs_update pair_key_def)
qed


lemma evaluate_one_cases:
  "fst (evaluate_one pnl prices tp notify now s store) = store
   \<or> (\<exists>x r. fst (evaluate_one pnl prices tp notify now s store)
              = fst (closeByWalletMintWithExit (wallet s) (mint s) x r now store))"
  by (simp add: evaluate_one_def Let_def case_prod_beta split: option.splits) blast

lemma evaluate_one_inv:
  assumes "at_most_one_open store"
  shows "at_most_one_open (fst (evaluate_one pnl prices tp notify now s store))"
  using evaluate_one_cases[of pnl prices tp notify now s store] assms
  by (auto simp: closeByWalletMintWithExit_inv)

lemma evaluate_inv:
  "at_most_one_open store \<Longrightarrow> at_most_one_open (evaluate pnl prices tp notify now snapshot store)"
proof (induction snapshot arbitrary: store)
  case Nil
  then show ?case by simp
next
  case (Cons s rest)
  from Cons.prems have "at_most_one_open (fst (evaluate_one pnl prices tp notify now s store))"
    by (rule evaluate_one_inv)
  with Cons.IH show ?case
    by (cases "evaluate_one pnl prices tp notify now s store") auto
qed

lemma tick_inv:
  "at_most_one_open store \<Longrightarrow> at_most_one_open (tick pnl prices tp notify now store)"
  by (simp add: tick_def evaluate_inv)

lemma buy_body_inv:
  assumes "at_most_one_open (signals st)"
  shows "at_most_one_open (signals (buy_body actor mnt amt now q autobuy budget st))"
proof -
  let ?p = "\<lparr> b_wallet = actor, b_mint = mnt, b_amount = amt,
              b_stopLossPct = stopLossPctDefault st, b_source = q_source q,
              b_priceUsd = q_priceUsd q, b_symbol = q_symbol q \<rparr>"
  have up: "at_most_one_open (fst (upsertBuy ?p now (signals st)))"
    if "\<not> hasOpenSignalForMint mnt (signals st)"
  proof (rule upsertBuy_inv[OF assms])
    from guard_no_open[OF that, of actor]
    show "\<forall>s\<in>set (signals st). is_open_for (b_wallet ?p) (b_mint ?p) s
            \<longrightarrow> now - last_update s \<le> MERGE_WINDOW_MS"
      by simp
  qed
  then have up2: "at_most_one_open (attachTraderBuy (snd (upsertBuy ?p now (signals st))) j sp
                      (fst (upsertBuy ?p now (signals st))))"
    if "\<not> hasOpenSignalForMint mnt (signals st)" for j sp
    using that by (simp add: at_most_one_open_def attachTraderBuy_pairs)
  show ?thesis
    using assms up up2
    by (simp add: buy_body_def Let_def case_prod_beta split: option.splits)
qed

lemma webhook_buy_inv:
  assumes "at_most_one_open (signals st)"
  shows "at_most_one_open
           (signals (webhook_buy actor signature mnt amt amtKey now q autobuy budget st))"
  using assms
    buy_body_inv[of "st\<lparr> seenEventKeys := x \<rparr>" actor mnt amt now q autobuy budget for x]
  by (simp add: webhook_buy_def seen_check_def)

lemma sell_body_inv:
  assumes "at_most_one_open (signals st)"
  shows "at_most_one_open (signals (sell_body actor mnt now announced autosell st))"
proof -
  have c: "at_most_one_open (fst (closeByWalletAndMint actor mnt (Some ''sold_by_wallet'') now (signals st)))"
    using assms by (rule closeByWalletAndMint_inv)
  then have c2: "at_most_one_open (attachTraderSell rc j
        (fst (closeByWalletAndMint actor mnt (Some ''sold_by_wallet'') now (signals st))))" for rc j
    by (simp add: at_most_one_open_def attachTraderSell_pairs)
  show ?thesis
    using assms c c2
    by (simp add: sell_body_def Let_def case_prod_beta split: option.splits)
qed

lemma webhook_sell_inv:
  assumes "at_most_one_open (signals st)"
  shows "at_most_one_open
           (signals (webhook_sell actor signature mnt amt amtKey now announced autosell st))"
  using assms
    sell_body_inv[of "st\<lparr> seenEventKeys := x \<rparr>" actor mnt now announced autosell for x]
  by (simp add: webhook_sell_def seen_check_def)

lemma step_inv:
  assumes "at_most_one_open (signals st)"
  shows "at_most_one_open (signals (step st i))"
proof (cases i)
  case (WebhookBuy actor signature mnt amt amtKey now q autobuy budget)
  with assms show ?thesis by (simp add: webhook_buy_inv)
next
  case (WebhookSell actor signature mnt amt amtKey now announced autosell)
  with assms show ?thesis by (simp add: webhook_sell_inv)
next
  case (CleanMaps now)
  with assms show ?thesis by (simp add: cleanMapsNow_def)
next
  case (PriceTick pnl prices notify now)
  with assms show ?thesis by (simp add: tick_inv)
next
  case (SetStopLoss n)
  with assms show ?thesis by (simp add: set_stoploss_def updateOpenSignalsStopLoss_inv)
next
  case (SetTakeProfit v)
  with assms show ?thesis by (simp add: set_takeprofit_def)
qed

lemma run_inv:
  "at_most_one_open (signals st) \<Longrightarrow> at_most_one_open (signals (run st inputs))"
  unfolding run_def
  by (induction inputs arbitrary: st) (simp_all add: step_inv)


text \<open>
  Claim C1, as the code has it. \<open>upsertBuy\<close> keeps the invariant when the pair has no
  open Signal or its open Signal was last updated within the merge window; the webhook
  calls it only behind the guard \<open>hasOpenSignalForMint\<close>, so every state the system
  reaches from a store that satisfies the invariant satisfies it too, whatever the inputs.
\<close>

theorem at_most_one_open_preserved:
  assumes "at_most_one_open (signals st)"
  shows "at_most_one_open (signals (run st inputs))
       \<and> ((\<forall>s\<in>set (signals st). is_open_for (b_wallet p) (b_mint p) s
               \<longrightarrow> now - last_update s \<le> MERGE_WINDOW_MS)
            \<longrightarrow> at_most_one_open (fst (upsertBuy p now (signals st))))
       \<and> (\<not> hasOpenSignalForMint (b_mint p) (signals st)
            \<longrightarrow> at_most_one_open (fst (upsertBuy p now (signals st))))"
proof (intro conjI impI)
  show "at_most_one_open (signals (run st inputs))"
    using assms by (rule run_inv)
next
  assume "\<forall>s\<in>set (signals st). is_open_for (b_wallet p) (b_mint p) s
            \<longrightarrow> now - last_update s \<le> MERGE_WINDOW_MS"
  with assms show "at_most_one_open (fst (upsertBuy p now (signals st)))"
    by (rule upsertBuy_inv)
next
  assume "\<not> hasOpenSignalForMint (b_mint p) (signals st)"
  from guard_no_open[OF this, of "b_wallet p"] assms
  show "at_most_one_open (fst (upsertBuy p now (signals st)))"
    by (intro upsertBuy_inv) simp_all
qed

theorem at_most_one_open_preserved_witness:
  "at_most_one_open (signals example_state)
   \<and> at_most_one_open (signals (run example_state example_inputs))
   \<and> map status (signals (run example_state example_inputs)) = [Closed, Open]
   \<and> at_most_one_open (fst (upsertBuy example_buy 30000 (signals example_state)))"
proof -
  have h: "at_most_one_open (signals example_state)"
    by code_simp
  have w: "\<forall>s\<in>set (signals example_state).
             is_open_for (b_wallet example_buy) (b_mint example_buy) s
               \<longrightarrow> 30000 - last_update s \<le> MERGE_WINDOW_MS"
    by (simp add: example_state_def example_open_def last_update_def MERGE_WINDOW_MS_def)
  have r: "map status (signals (run example_state example_inputs)) = [Closed, Open]"
    by code_simp
  from at_most_one_open_preserved [OF h, of example_inputs example_buy 30000] w r h
  show ?thesis
    by blast
qed

text \<open>The claim as written fails for \<open>upsertBuy\<close> on its own: with an open Signal last
  updated more than 60 seconds ago, it appends a second open Signal for the same pair.\<close>

theorem upsertBuy_second_open_counterexample:
  "at_most_one_open [example_open]
   \<and> is_open_for (b_wallet example_buy) (b_mint example_buy) example_open
   \<and> map status (fst (upsertBuy example_buy 60001 [example_open])) = [Open, Open]
   \<and> map wallet (fst (upsertBuy example_buy 60001 [example_open])) = [''W1'', ''W1'']
   \<and> map mint (fst (upsertBuy example_buy 60001 [example_open])) = [''M1'', ''M1'']
   \<and> \<not> at_most_one_open (fst (upsertBuy example_buy 60001 [example_open]))"
  by code_simp

section \<open>Properties of the Price Monitor\<close>

lemma closeByWalletMintWithExit_length:
  "length (fst (closeByWalletMintWithExit w m x r now list)) = length list"
  by (simp add: closeByWalletMintWithExit_def Let_def)

lemma evaluate_one_length:
  "length (fst (evaluate_one pnl prices tp notify now x store)) = length store"
  using evaluate_one_cases[of pnl prices tp notify now x store]
  by (auto simp: closeByWalletMintWithExit_length)

lemma evaluate_one_other:
  assumes "i < length store" and "\<not> is_open_for (wallet x) (mint x) (store ! i)"
  shows "fst (evaluate_one pnl prices tp notify now x store) ! i = store ! i"
  using evaluate_one_cases[of pnl prices tp notify now x store] assms
  by (auto simp: closeByWalletMintWithExit_nth)

lemma evaluate_length:
  "length (evaluate pnl prices tp notify now snap store) = length store"
proof (induction snap arbitrary: store)
  case Nil
  then show ?case by simp
next
  case (Cons x rest)
  then show ?case
    by (cases "evaluate_one pnl prices tp notify now x store") (use evaluate_one_length[of pnl prices tp notify now x store] in auto)
qed

lemma evaluate_keeps_closed:
  assumes "i < length store" and "status (store ! i) = Closed"
  shows "evaluate pnl prices tp notify now snap store ! i = store ! i"
  using assms
proof (induction snap arbitrary: store)
  case Nil
  then show ?case by simp
next
  case (Cons x rest)
  obtain store' go where e: "evaluate_one pnl prices tp notify now x store = (store', go)"
    by (cases "evaluate_one pnl prices tp notify now x store")
  from Cons.prems have same: "store' ! i = store ! i"
    using evaluate_one_other[of i store x pnl prices tp notify now] e
    by (simp add: closed_not_open)
  have len: "length store' = length store"
    using evaluate_one_length[of pnl prices tp notify now x store] e by simp
  show ?case
  proof (cases go)
    case True
    with e have "evaluate pnl prices tp notify now (x # rest) store = evaluate pnl prices tp notify now rest store'"
      by simp
    also have "\<dots> ! i = store' ! i"
      using Cons.prems same len by (intro Cons.IH) simp_all
    finally show ?thesis using same by simp
  next
    case False
    with e same show ?thesis by simp
  qed
qed

lemma evaluate_one_stop_loss:
  assumes "i < length store" and "status (store ! i) = Open"
      and "entryPriceUsd (store ! i) = Some entry" and "0 < entry"
      and "prices (mint (store ! i)) = Some current" and "0 < current"
      and "pnl current entry \<le> stopLossPct (store ! i)"
  shows "stop_loss_closed current (fst (evaluate_one pnl prices tp notify now (store ! i) store) ! i)"
proof -
  have o: "is_open_for (wallet (store ! i)) (mint (store ! i)) (store ! i)"
    using assms(2) by (simp add: is_open_for_def)
  have "fst (evaluate_one pnl prices tp notify now (store ! i) store)
        = fst (closeByWalletMintWithExit (wallet (store ! i)) (mint (store ! i)) current ''stop_loss'' now store)"
    using assms(3-7) by (simp add: evaluate_one_def Let_def case_prod_beta)
  then show ?thesis
    using assms(1,3,4) o
    by (simp add: closeByWalletMintWithExit_nth close_exit_one_def stop_loss_closed_def)
qed

lemma evaluate_stop_loss:
  assumes "distinct (map (\<lambda>s. (wallet s, mint s)) snap)"
      and "store ! i \<in> set snap"
      and "i < length store" and "status (store ! i) = Open"
      and "entryPriceUsd (store ! i) = Some entry" and "0 < entry"
      and "prices (mint (store ! i)) = Some current" and "0 < current"
      and "pnl current entry \<le> stopLossPct (store ! i)"
  shows "(evaluate pnl prices tp notify now snap store ! i = store ! i
          \<or> stop_loss_closed current (evaluate pnl prices tp notify now snap store ! i))
       \<and> ((\<forall>x\<in>set (takeWhile (\<lambda>x. x \<noteq> store ! i) snap). notify x)
            \<longrightarrow> stop_loss_closed current (evaluate pnl prices tp notify now snap store ! i))"
  using assms
proof (induction snap arbitrary: store)
  case Nil
  then show ?case by simp
next
  case (Cons x rest)
  obtain store' go where e: "evaluate_one pnl prices tp notify now x store = (store', go)"
    by (cases "evaluate_one pnl prices tp notify now x store")
  have len: "length store' = length store"
    using evaluate_one_length[of pnl prices tp notify now x store] e by simp
  have go: "go" if "notify x"
    using e that by (auto simp: evaluate_one_def Let_def case_prod_beta split: option.splits if_splits)
  show ?case
  proof (cases "x = store ! i")
    case True
    from evaluate_one_stop_loss[where i = i and store = store and prices = prices
        and entry = entry and current = current and tp = tp and notify = notify and now = now
        and pnl = pnl, OF Cons.prems(3-9)] e True
    have c: "stop_loss_closed current (store' ! i)" by simp
    then have cl: "status (store' ! i) = Closed" by (simp add: stop_loss_closed_def)
    have "evaluate pnl prices tp notify now (x # rest) store ! i = store' ! i"
    proof (cases go)
      case True
      with e have "evaluate pnl prices tp notify now (x # rest) store = evaluate pnl prices tp notify now rest store'"
        by simp
      moreover have "evaluate pnl prices tp notify now rest store' ! i = store' ! i"
        using Cons.prems(3) len cl by (intro evaluate_keeps_closed) simp_all
      ultimately show ?thesis by simp
    next
      case False
      with e show ?thesis by simp
    qed
    with c show ?thesis by simp
  next
    case False
    with Cons.prems(2) have mem: "store ! i \<in> set rest" by simp
    with Cons.prems(1) have "(wallet x, mint x) \<noteq> (wallet (store ! i), mint (store ! i))"
      by force
    then have "\<not> is_open_for (wallet x) (mint x) (store ! i)"
      by (auto simp: is_open_for_def)
    with Cons.prems(3) e have same: "store' ! i = store ! i"
      using evaluate_one_other[of i store x pnl prices tp notify now] by simp
    show ?thesis
    proof (cases go)
      case True
      with e have ev: "evaluate pnl prices tp notify now (x # rest) store = evaluate pnl prices tp notify now rest store'"
        by simp
      have d: "distinct (map (\<lambda>s. (wallet s, mint s)) rest)"
        using Cons.prems(1) by simp
      have ih: "(evaluate pnl prices tp notify now rest store' ! i = store' ! i
          \<or> stop_loss_closed current (evaluate pnl prices tp notify now rest store' ! i))
       \<and> ((\<forall>x\<in>set (takeWhile (\<lambda>x. x \<noteq> store' ! i) rest). notify x)
            \<longrightarrow> stop_loss_closed current (evaluate pnl prices tp notify now rest store' ! i))"
        using Cons.prems(3-9) mem len d unfolding same[symmetric]
        by (intro Cons.IH) simp_all
      with ev same False show ?thesis by simp
    next
      case False
      with go have "\<not> notify x" by blast
      with False e same \<open>x \<noteq> store ! i\<close> show ?thesis by simp
    qed
  qed
qed

lemma snapshot_distinct:
  assumes "at_most_one_open store"
  shows "distinct (map (\<lambda>s. (wallet s, mint s)) (filter open_priced store))"
proof -
  have "filter open_priced store
        = filter (\<lambda>s. case entryPriceUsd s of None \<Rightarrow> False | Some e \<Rightarrow> e > 0)
            (filter (\<lambda>s. status s = Open) store)"
    by (induction store) (auto simp: open_priced_def)
  moreover from assms
  have "distinct (map (\<lambda>s. (wallet s, mint s)) (filter (\<lambda>s. status s = Open) store))"
    by (simp add: at_most_one_open_def open_pairs_def)
  ultimately show ?thesis
    by (simp only: distinct_map_filter)
qed

lemma takeWhile_before:
  assumes "i < length store" and "P (store ! i)"
  shows "set (takeWhile (\<lambda>x. x \<noteq> store ! i) (filter P store)) \<subseteq> set (take i store)"
proof -
  have "store = take i store @ store ! i # drop (Suc i) store"
    using assms by (simp add: id_take_nth_drop)
  then have f: "filter P store
      = filter P (take i store) @ filter P (store ! i # drop (Suc i) store)"
    by (metis filter_append)
  have "set (takeWhile (\<lambda>x. x \<noteq> store ! i) (xs @ filter P (store ! i # ys))) \<subseteq> set xs" for xs ys
    using assms(2) by (induction xs) auto
  with f show ?thesis
    by (metis (no_types, lifting) filter_is_subset subset_trans)
qed

lemma stop_loss_priority_inv:
  assumes "at_most_one_open store"
      and "i < length store" and "status (store ! i) = Open"
      and "entryPriceUsd (store ! i) = Some entry" and "0 < entry"
      and "prices (mint (store ! i)) = Some current" and "0 < current"
      and "pnl current entry \<le> stopLossPct (store ! i)"
  shows "(tick pnl prices tp notify now store ! i = store ! i
          \<or> stop_loss_closed current (tick pnl prices tp notify now store ! i))
       \<and> ((\<forall>j<i. notify (store ! j))
            \<longrightarrow> stop_loss_closed current (tick pnl prices tp notify now store ! i))"
proof -
  have d: "distinct (map (\<lambda>s. (wallet s, mint s)) (filter open_priced store))"
    using assms(1) by (rule snapshot_distinct)
  have m: "store ! i \<in> set (filter open_priced store)"
    using assms(2-5) by (simp add: open_priced_def)
  have n: "\<forall>x\<in>set (takeWhile (\<lambda>x. x \<noteq> store ! i) (filter open_priced store)). notify x"
    if "\<forall>j<i. notify (store ! j)"
  proof
    fix x assume "x \<in> set (takeWhile (\<lambda>x. x \<noteq> store ! i) (filter open_priced store))"
    with takeWhile_before[OF assms(2), of open_priced] m have "x \<in> set (take i store)" by auto
    then obtain j where "j < i" "x = store ! j"
      using assms(2) by (auto simp: in_set_conv_nth)
    with that show "notify x" by simp
  qed
  from evaluate_stop_loss[where snap = "filter open_priced store" and store = store
      and i = i and entry = entry and current = current and prices = prices and tp = tp
      and notify = notify and now = now and pnl = pnl, OF d m assms(2-8)] n
  show ?thesis
    by (auto simp: tick_def)
qed

lemma at_most_one_open_empty: "at_most_one_open []"
  by (simp add: at_most_one_open_def open_pairs_def)

text \<open>
  Claim C4, as the code has it. Take any state the system reaches from an empty store,
  whatever the inputs,
  and in it an open Signal with a positive entry price, a resolved positive current price
  and a PnL, as the cycle computes it, at or below the Signal's stop-loss. After a Price
  Monitor cycle the Signal is either closed with reason \<open>stop_loss\<close> and exit price
  the current price, or exactly as it was: it is never closed with reason
  \<open>take_profit\<close>, for every take-profit setting of the state, in particular one
  that the PnL reaches as well. It is closed whenever the cycle reaches it, which it does
  when the notification of every Signal stored before it returns normally; a notification
  that throws ends the cycle, and the Signals not yet visited are left open.
\<close>

theorem stop_loss_priority:
  assumes "signals st0 = []" and "st = run st0 inputs"
      and "i < length (signals st)" and "status (signals st ! i) = Open"
      and "entryPriceUsd (signals st ! i) = Some entry" and "0 < entry"
      and "prices (mint (signals st ! i)) = Some current" and "0 < current"
      and "pnl current entry \<le> stopLossPct (signals st ! i)"
  shows "(signals (step st (PriceTick pnl prices notify now)) ! i = signals st ! i
          \<or> stop_loss_closed current (signals (step st (PriceTick pnl prices notify now)) ! i))
       \<and> ((\<forall>j<i. notify (signals st ! j))
            \<longrightarrow> stop_loss_closed current
                  (signals (step st (PriceTick pnl prices notify now)) ! i))"
proof -
  have "at_most_one_open (signals st0)"
    using assms(1) by (simp add: at_most_one_open_empty)
  then have inv: "at_most_one_open (signals st)"
    unfolding assms(2) by (rule run_inv)
  from stop_loss_priority_inv[where store = "signals st" and i = i and entry = entry
      and current = current and prices = prices and tp = "takeProfitPct st"
      and notify = notify and now = now and pnl = pnl, OF inv assms(3-9)]
  show ?thesis
    by simp
qed

theorem stop_loss_priority_witness:
  "signals example_empty = []
   \<and> takeProfitPct (run example_empty example_two_buys) = Some (- (9 / 10))
   \<and> map entryPriceUsd (signals (run example_empty example_two_buys))
       = [Some (6 / 5), Some (6 / 5)]
   \<and> map stopLossPct (signals (run example_empty example_two_buys)) = [- (1 / 2), - (1 / 2)]
   \<and> exact_pnl (2 / 5) (6 / 5) \<le> - (1 / 2)
   \<and> - (9 / 10) \<le> exact_pnl (2 / 5) (6 / 5)
   \<and> stop_loss_closed (2 / 5)
        (signals (step (run example_empty example_two_buys)
                    (PriceTick exact_pnl (\<lambda>_. Some (2 / 5)) (\<lambda>_. True) 7000)) ! 1)
   \<and> closeReason
        (signals (step (run example_empty example_two_buys)
                    (PriceTick exact_pnl (\<lambda>_. Some (2 / 5)) (\<lambda>_. True) 7000)) ! 1)
       = Some ''stop_loss''"
proof -
  have s: "signals (run example_empty example_two_buys)
      = [\<lparr> ts = 1000, wallet = ''W1'', mint = ''M1'', amount = 50, entryPriceUsd = Some (6 / 5),
           symbol = None, status = Open, stopLossPct = - (1 / 2), source = Some Birdeye,
           updatedTs = Some 1000, occurrences = Some 1, closedTs = None, closeReason = None,
           trader = None, exitPriceUsd = None, exitPnlPct = None \<rparr>,
         \<lparr> ts = 2000, wallet = ''W2'', mint = ''M2'', amount = 80, entryPriceUsd = Some (6 / 5),
           symbol = None, status = Open, stopLossPct = - (1 / 2), source = Some Birdeye,
           updatedTs = Some 2000, occurrences = Some 1, closedTs = None, closeReason = None,
           trader = None, exitPriceUsd = None, exitPnlPct = None \<rparr>]"
    by code_simp
  have t: "takeProfitPct (run example_empty example_two_buys) = Some (- (9 / 10))"
    by code_simp
  have p: "exact_pnl (2 / 5) (6 / 5) \<le> - (1 / 2)" "- (9 / 10) \<le> exact_pnl (2 / 5) (6 / 5)"
    by (simp_all add: exact_pnl_def)
  have e: "signals example_empty = []"
    by (simp add: example_empty_def)
  have h: "signals example_empty = []"
    "run example_empty example_two_buys = run example_empty example_two_buys"
    "1 < length (signals (run example_empty example_two_buys))"
    "status (signals (run example_empty example_two_buys) ! 1) = Open"
    "entryPriceUsd (signals (run example_empty example_two_buys) ! 1) = Some (6 / 5)"
    "(0 :: rat) < 6 / 5"
    "(\<lambda>_. Some (2 / 5 :: rat)) (mint (signals (run example_empty example_two_buys) ! 1)) = Some (2 / 5)"
    "(0 :: rat) < 2 / 5"
    "exact_pnl (2 / 5) (6 / 5) \<le> stopLossPct (signals (run example_empty example_two_buys) ! 1)"
    using p by (simp_all add: s e)
  from stop_loss_priority [where ?st0.0 = example_empty and inputs = example_two_buys
      and st = "run example_empty example_two_buys" and i = 1 and entry = "6 / 5"
      and current = "2 / 5" and prices = "\<lambda>_. Some (2 / 5)" and notify = "\<lambda>_. True"
      and now = 7000 and pnl = exact_pnl, OF h]
  have c: "stop_loss_closed (2 / 5)
        (signals (step (run example_empty example_two_buys)
                    (PriceTick exact_pnl (\<lambda>_. Some (2 / 5)) (\<lambda>_. True) 7000)) ! 1)"
    by simp
  then have r: "closeReason
        (signals (step (run example_empty example_two_buys)
                    (PriceTick exact_pnl (\<lambda>_. Some (2 / 5)) (\<lambda>_. True) 7000)) ! 1)
       = Some ''stop_loss''"
    by (simp add: stop_loss_closed_def)
  from c r t p h(1) show ?thesis
    by (simp add: s)
qed

text \<open>The claim as written fails when a notification throws. Two buys of different
  wallets and mints enter an empty store at 1.2; at the price 0.4 both are below the
  stop-loss of -0.5 and above the take-profit of -0.9. The first is closed with reason
  \<open>stop_loss\<close>, its notification throws, and the second is left open.\<close>

theorem stop_loss_notification_counterexample:
  "signals example_empty = []
   \<and> map status (signals (run example_empty example_two_buys)) = [Open, Open]
   \<and> map entryPriceUsd (signals (run example_empty example_two_buys)) = [Some (6 / 5), Some (6 / 5)]
   \<and> map stopLossPct (signals (run example_empty example_two_buys)) = [- (1 / 2), - (1 / 2)]
   \<and> takeProfitPct (run example_empty example_two_buys) = Some (- (9 / 10))
   \<and> exact_pnl (2 / 5) (6 / 5) \<le> - (1 / 2)
   \<and> - (9 / 10) \<le> exact_pnl (2 / 5) (6 / 5)
   \<and> map status
        (signals (step (run example_empty example_two_buys)
                    (PriceTick exact_pnl (\<lambda>_. Some (2 / 5)) (\<lambda>_. False) 7000)))
       = [Closed, Open]
   \<and> map closeReason
        (signals (step (run example_empty example_two_buys)
                    (PriceTick exact_pnl (\<lambda>_. Some (2 / 5)) (\<lambda>_. False) 7000)))
       = [Some ''stop_loss'', None]"
  by code_simp

text \<open>The guard of the webhook matters here. In a store with two open Signals of one
  pair that entered at different prices, which \<open>upsertBuy\<close> alone can build and the
  webhook never does, the first can reach take-profit only and close both; the second,
  whose PnL is below its stop-loss as well, then stays closed with reason
  \<open>take_profit\<close>.\<close>

lemma stop_loss_priority_needs_invariant:
  "map closeReason
     (tick exact_pnl (\<lambda>_. Some (2 / 5)) (Some (- (9 / 10))) (\<lambda>_. True) 7000
        [example_open\<lparr> entryPriceUsd := Some (1 / 2) \<rparr>, example_open])
   = [Some ''take_profit'', Some ''take_profit'']"
  by code_simp

text \<open>The hypothesis of the stop-loss property is on the PnL the cycle computes. For the
  doubles nearest to an entry price of 1.65 and a current price of 0.4125 the quotient
  without rounding is -0.75, at a stop-loss of -0.75; the cycle computes
  -0.7499999999999999 in double precision, which is above the stop-loss, and with the
  take-profit of the example the Signal is closed with reason \<open>take_profit\<close>.\<close>

lemma stop_loss_rounding_example:
  "exact_pnl (3715469692580659 / 9007199254740992) (3715469692580659 / 2251799813685248)
     = - (3 / 4)
   \<and> map closeReason
        (tick (\<lambda>current entry. - (6755399441055743 / 9007199254740992))
           (\<lambda>_. Some (3715469692580659 / 9007199254740992)) (Some (- (9 / 10)))
           (\<lambda>_. True) 7000
           [example_open\<lparr> entryPriceUsd := Some (3715469692580659 / 2251799813685248),
                          stopLossPct := - (3 / 4) \<rparr>])
       = [Some ''take_profit'']"
  by code_simp

section \<open>Properties of the Event Deduplication Cache\<close>

lemma seen_check_keeps:
  "seen k = Some T \<Longrightarrow> fst (seen_check k' now seen) k = Some T"
  by (auto simp: seen_check_def)

lemma buy_body_seen:
  "seenEventKeys (buy_body actor mnt amt now q autobuy budget st1) = seenEventKeys st1"
  by (simp add: buy_body_def Let_def case_prod_beta)

lemma sell_body_seen:
  "seenEventKeys (sell_body actor mnt now announced autosell st1) = seenEventKeys st1"
  by (simp add: sell_body_def case_prod_beta)

lemma webhook_buy_fresh:
  assumes "mnt \<noteq> SOL_MINT" and "amt \<noteq> 0"
      and "seenEventKeys st (mk_key signature actor mnt BUY amtKey) = None"
  shows "webhook_buy actor signature mnt amt amtKey now q autobuy budget st
       = buy_body actor mnt amt now q autobuy budget
           (st\<lparr> seenEventKeys :=
                  (seenEventKeys st)(mk_key signature actor mnt BUY amtKey \<mapsto> now) \<rparr>)"
  using assms by (simp add: webhook_buy_def seen_check_def)

lemma webhook_buy_dup:
  assumes "seenEventKeys st (mk_key signature actor mnt BUY amtKey) = Some T"
  shows "webhook_buy actor signature mnt amt amtKey now q autobuy budget st = st"
  using assms by (simp add: webhook_buy_def seen_check_def)

lemma webhook_sell_fresh:
  assumes "mnt \<noteq> SOL_MINT" and "amt \<noteq> 0"
      and "seenEventKeys st (mk_key signature actor mnt SELL amtKey) = None"
  shows "webhook_sell actor signature mnt amt amtKey now announced autosell st
       = sell_body actor mnt now announced autosell
           (st\<lparr> seenEventKeys :=
                  (seenEventKeys st)(mk_key signature actor mnt SELL amtKey \<mapsto> now) \<rparr>)"
  using assms by (simp add: webhook_sell_def seen_check_def)

lemma webhook_sell_dup:
  assumes "seenEventKeys st (mk_key signature actor mnt SELL amtKey) = Some T"
  shows "webhook_sell actor signature mnt amt amtKey now announced autosell st = st"
  using assms by (simp add: webhook_sell_def seen_check_def)

lemma webhook_buy_seen:
  "seenEventKeys (webhook_buy actor signature mnt amt amtKey now q autobuy budget st)
     = seenEventKeys st
   \<or> seenEventKeys (webhook_buy actor signature mnt amt amtKey now q autobuy budget st)
     = fst (seen_check (mk_key signature actor mnt BUY amtKey) now (seenEventKeys st))"
  by (simp add: webhook_buy_def case_prod_beta buy_body_seen)

lemma webhook_sell_seen:
  "seenEventKeys (webhook_sell actor signature mnt amt amtKey now announced autosell st)
     = seenEventKeys st
   \<or> seenEventKeys (webhook_sell actor signature mnt amt amtKey now announced autosell st)
     = fst (seen_check (mk_key signature actor mnt SELL amtKey) now (seenEventKeys st))"
  by (simp add: webhook_sell_def case_prod_beta sell_body_seen)

lemma step_keeps_seen:
  assumes "seenEventKeys st k = Some T" and "early_sweep T i"
  shows "seenEventKeys (step st i) k = Some T"
proof (cases i)
  case (WebhookBuy actor signature mnt amt amtKey now q autobuy budget)
  with assms(1) webhook_buy_seen[of actor signature mnt amt amtKey now q autobuy budget st]
  show ?thesis by (auto simp: seen_check_keeps)
next
  case (WebhookSell actor signature mnt amt amtKey now announced autosell)
  with assms(1) webhook_sell_seen[of actor signature mnt amt amtKey now announced autosell st]
  show ?thesis by (auto simp: seen_check_keeps)
next
  case (CleanMaps now)
  with assms show ?thesis by (simp add: cleanMapsNow_def sweep_seen_def)
next
  case (PriceTick pnl prices notify now)
  with assms show ?thesis by simp
next
  case (SetStopLoss n)
  with assms show ?thesis by (simp add: set_stoploss_def)
next
  case (SetTakeProfit v)
  with assms show ?thesis by (simp add: set_takeprofit_def)
qed

lemma run_keeps_seen:
  "seenEventKeys st k = Some T \<Longrightarrow> no_late_sweep T inputs
     \<Longrightarrow> seenEventKeys (run st inputs) k = Some T"
  unfolding run_def no_late_sweep_def
  by (induction inputs arbitrary: st) (simp_all add: step_keeps_seen)

lemma late_sweep_removes:
  "seenEventKeys st k = Some T \<Longrightarrow> T + SEEN_TTL_MS < s
     \<Longrightarrow> seenEventKeys (cleanMapsNow s st) k = None"
  by (simp add: cleanMapsNow_def sweep_seen_def)

text \<open>
  Claim C6, as the code has it, for a buy and for a sell entry of a webhook event whose
  key is new at time \<open>T\<close>. The delivery is accepted: the key is stored with \<open>T\<close> and
  the body of the loop runs on the state that holds it; for a sell whose announcement
  throws, that body closes nothing. The membership test does not look at the stored time:
  whatever the system does next, as long as no sweep runs later than \<open>T + TTL\<close>, every
  further delivery of the key is skipped and leaves the whole state as it is, at whatever
  time it arrives. After a sweep that runs later than \<open>T + TTL\<close> the key is gone, and
  its next delivery is accepted again: the key is stored with the new time and the body
  of the loop runs.
\<close>

theorem dedup_until_sweep:
  assumes "mnt \<noteq> SOL_MINT" and "amt \<noteq> 0" and "no_late_sweep T inputs"
      and "kb = mk_key signature actor mnt BUY amtKey"
      and "seenEventKeys st kb = None"
      and "sb = run (webhook_buy actor signature mnt amt amtKey T q autobuy budget st) inputs"
      and "ks = mk_key signature actor mnt SELL amtKey"
      and "seenEventKeys st ks = None"
      and "ss = run (webhook_sell actor signature mnt amt amtKey T announced autosell st) inputs"
  shows "webhook_buy actor signature mnt amt amtKey T q autobuy budget st
           = buy_body actor mnt amt T q autobuy budget
               (st\<lparr> seenEventKeys := (seenEventKeys st)(kb \<mapsto> T) \<rparr>)
       \<and> webhook_buy actor signature mnt amt amtKey t' q' autobuy' budget' sb = sb
       \<and> (T + SEEN_TTL_MS < s
            \<longrightarrow> webhook_buy actor signature mnt amt amtKey t' q' autobuy' budget'
                  (cleanMapsNow s sb)
                = buy_body actor mnt amt t' q' autobuy' budget'
                    ((cleanMapsNow s sb)
                       \<lparr> seenEventKeys := (seenEventKeys (cleanMapsNow s sb))(kb \<mapsto> t') \<rparr>))
       \<and> webhook_sell actor signature mnt amt amtKey T announced autosell st
           = sell_body actor mnt T announced autosell
               (st\<lparr> seenEventKeys := (seenEventKeys st)(ks \<mapsto> T) \<rparr>)
       \<and> (\<not> announced
            \<longrightarrow> signals (webhook_sell actor signature mnt amt amtKey T announced autosell st)
                = signals st)
       \<and> webhook_sell actor signature mnt amt amtKey t' announced' autosell' ss = ss
       \<and> (T + SEEN_TTL_MS < s
            \<longrightarrow> webhook_sell actor signature mnt amt amtKey t' announced' autosell'
                  (cleanMapsNow s ss)
                = sell_body actor mnt t' announced' autosell'
                    ((cleanMapsNow s ss)
                       \<lparr> seenEventKeys := (seenEventKeys (cleanMapsNow s ss))(ks \<mapsto> t') \<rparr>))"
proof -
  have b1: "webhook_buy actor signature mnt amt amtKey T q autobuy budget st
           = buy_body actor mnt amt T q autobuy budget
               (st\<lparr> seenEventKeys := (seenEventKeys st)(kb \<mapsto> T) \<rparr>)"
    using assms(1,2,5) unfolding assms(4) by (rule webhook_buy_fresh)
  then have "seenEventKeys (webhook_buy actor signature mnt amt amtKey T q autobuy budget st) kb
      = Some T"
    by (simp add: buy_body_seen)
  from this assms(3) have bk: "seenEventKeys sb kb = Some T"
    unfolding assms(6) by (rule run_keeps_seen)
  then have b2: "webhook_buy actor signature mnt amt amtKey t' q' autobuy' budget' sb = sb"
    unfolding assms(4) by (rule webhook_buy_dup)
  have b3: "webhook_buy actor signature mnt amt amtKey t' q' autobuy' budget' (cleanMapsNow s sb)
                = buy_body actor mnt amt t' q' autobuy' budget'
                    ((cleanMapsNow s sb)
                       \<lparr> seenEventKeys := (seenEventKeys (cleanMapsNow s sb))(kb \<mapsto> t') \<rparr>)"
    if "T + SEEN_TTL_MS < s"
    using assms(1,2) late_sweep_removes[OF bk that] unfolding assms(4)
    by (rule webhook_buy_fresh)
  have s1: "webhook_sell actor signature mnt amt amtKey T announced autosell st
           = sell_body actor mnt T announced autosell
               (st\<lparr> seenEventKeys := (seenEventKeys st)(ks \<mapsto> T) \<rparr>)"
    using assms(1,2,8) unfolding assms(7) by (rule webhook_sell_fresh)
  then have "seenEventKeys (webhook_sell actor signature mnt amt amtKey T announced autosell st) ks
      = Some T"
    by (simp add: sell_body_seen)
  from this assms(3) have sk: "seenEventKeys ss ks = Some T"
    unfolding assms(9) by (rule run_keeps_seen)
  then have s2: "webhook_sell actor signature mnt amt amtKey t' announced' autosell' ss = ss"
    unfolding assms(7) by (rule webhook_sell_dup)
  have s3: "webhook_sell actor signature mnt amt amtKey t' announced' autosell' (cleanMapsNow s ss)
                = sell_body actor mnt t' announced' autosell'
                    ((cleanMapsNow s ss)
                       \<lparr> seenEventKeys := (seenEventKeys (cleanMapsNow s ss))(ks \<mapsto> t') \<rparr>)"
    if "T + SEEN_TTL_MS < s"
    using assms(1,2) late_sweep_removes[OF sk that] unfolding assms(7)
    by (rule webhook_sell_fresh)
  have s4: "signals (webhook_sell actor signature mnt amt amtKey T announced autosell st)
                = signals st" if "\<not> announced"
    unfolding s1 using that by (simp add: sell_body_def)
  from b1 b2 b3 s1 s2 s3 s4 show ?thesis
    by blast
qed

theorem dedup_until_sweep_witness:
  "''M1'' \<noteq> SOL_MINT \<and> (50 :: rat) \<noteq> 0 \<and> no_late_sweep 0 [CleanMaps 270000]
   \<and> seenEventKeys example_state (mk_key (Some ''tx'') ''W1'' ''M1'' BUY ''50000000'') = None
   \<and> seenEventKeys example_state (mk_key (Some ''tx'') ''W1'' ''M1'' SELL ''50000000'') = None
   \<and> (0 :: int) + SEEN_TTL_MS < 330000
   \<and> webhook_sell ''W1'' (Some ''tx'') ''M1'' 50 ''50000000'' 0 True None example_state
       = sell_body ''W1'' ''M1'' 0 True None
           (example_state\<lparr> seenEventKeys := (seenEventKeys example_state)(example_key \<mapsto> 0) \<rparr>)
   \<and> webhook_sell ''W1'' (Some ''tx'') ''M1'' 50 ''50000000'' 300001 True None
         (run (webhook_sell ''W1'' (Some ''tx'') ''M1'' 50 ''50000000'' 0 True None example_state)
            [CleanMaps 270000])
       = run (webhook_sell ''W1'' (Some ''tx'') ''M1'' 50 ''50000000'' 0 True None example_state)
            [CleanMaps 270000]
   \<and> webhook_buy ''W1'' (Some ''tx'') ''M1'' 50 ''50000000'' 300001 example_q None (1 / 20)
         (run (webhook_buy ''W1'' (Some ''tx'') ''M1'' 50 ''50000000'' 0 example_q None (1 / 20)
                 example_state)
            [CleanMaps 270000])
       = run (webhook_buy ''W1'' (Some ''tx'') ''M1'' 50 ''50000000'' 0 example_q None (1 / 20)
                 example_state)
            [CleanMaps 270000]
   \<and> webhook_sell ''W1'' (Some ''tx'') ''M1'' 50 ''50000000'' 330001 True None
         (cleanMapsNow 330000
            (run (webhook_sell ''W1'' (Some ''tx'') ''M1'' 50 ''50000000'' 0 True None example_state)
               [CleanMaps 270000]))
       = sell_body ''W1'' ''M1'' 330001 True None
           ((cleanMapsNow 330000
               (run (webhook_sell ''W1'' (Some ''tx'') ''M1'' 50 ''50000000'' 0 True None
                       example_state)
                  [CleanMaps 270000]))
              \<lparr> seenEventKeys :=
                  (seenEventKeys
                     (cleanMapsNow 330000
                        (run (webhook_sell ''W1'' (Some ''tx'') ''M1'' 50 ''50000000'' 0 True None
                                example_state)
                           [CleanMaps 270000])))
                  (example_key \<mapsto> 330001) \<rparr>)"
proof -
  have k: "mk_key (Some ''tx'') ''W1'' ''M1'' SELL ''50000000'' = example_key"
    by (simp add: mk_key_def example_key_def)
  have h: "''M1'' \<noteq> SOL_MINT" "(50 :: rat) \<noteq> 0" "no_late_sweep 0 [CleanMaps 270000]"
    "mk_key (Some ''tx'') ''W1'' ''M1'' BUY ''50000000''
       = mk_key (Some ''tx'') ''W1'' ''M1'' BUY ''50000000''"
    "seenEventKeys example_state (mk_key (Some ''tx'') ''W1'' ''M1'' BUY ''50000000'') = None"
    "run (webhook_buy ''W1'' (Some ''tx'') ''M1'' 50 ''50000000'' 0 example_q None (1 / 20)
            example_state) [CleanMaps 270000]
       = run (webhook_buy ''W1'' (Some ''tx'') ''M1'' 50 ''50000000'' 0 example_q None (1 / 20)
            example_state) [CleanMaps 270000]"
    "example_key = mk_key (Some ''tx'') ''W1'' ''M1'' SELL ''50000000''"
    "seenEventKeys example_state example_key = None"
    "run (webhook_sell ''W1'' (Some ''tx'') ''M1'' 50 ''50000000'' 0 True None example_state)
         [CleanMaps 270000]
       = run (webhook_sell ''W1'' (Some ''tx'') ''M1'' 50 ''50000000'' 0 True None example_state)
         [CleanMaps 270000]"
    by (simp_all add: k example_state_def SOL_MINT_def no_late_sweep_def SEEN_TTL_MS_def)
  have l: "(0 :: int) + SEEN_TTL_MS < 330000"
    by (simp add: SEEN_TTL_MS_def)
  from dedup_until_sweep [OF h, where t' = 300001 and s = 330000 and q' = example_q
      and autobuy' = None and budget' = "1 / 20" and announced' = True and autosell' = None]
    dedup_until_sweep [OF h, where t' = 330001 and s = 330000 and q' = example_q
      and autobuy' = None and budget' = "1 / 20" and announced' = True and autosell' = None]
    l h(1,2,3,5,8)
  show ?thesis
    unfolding k by blast
qed

text \<open>The claim as written fails just after the TTL: the sweep runs every 60 seconds, so
  a key stored at 0 and last swept at 270000 is still there at 300001 (TTL + 1 ms). The
  first delivery of the sell closes the open Signal; the wallet buys again at 280000, and
  the sell delivered again at 300001 is skipped: the stored time stays 0 and the new
  Signal stays open. It fails also where the announcement of the sell throws: the key
  is stored, nothing is closed, and the next delivery is skipped, so the sell is never
  processed.\<close>

theorem dedup_ttl_counterexample:
  "SEEN_TTL_MS = 300000
   \<and> map status (signals example_state) = [Open]
   \<and> map status (signals (run example_state [example_replay 0, CleanMaps 270000, example_rebuy]))
       = [Closed, Open]
   \<and> seenEventKeys (run example_state [example_replay 0, CleanMaps 270000, example_rebuy])
        example_key = Some 0
   \<and> map status
        (signals (run example_state
                    [example_replay 0, CleanMaps 270000, example_rebuy, example_replay 300001]))
       = [Closed, Open]
   \<and> seenEventKeys
        (run example_state
           [example_replay 0, CleanMaps 270000, example_rebuy, example_replay 300001])
        example_key = Some 0
   \<and> map status (signals (run example_state [example_unannounced, example_replay 1000]))
       = [Open]
   \<and> seenEventKeys (run example_state [example_unannounced, example_replay 1000]) example_key
       = Some 0"
  by code_simp

section \<open>Properties of Route Resolution\<close>

subsection \<open>Call log and buy path\<close>

lemma swapped_append: "swapped (xs @ ys) = swapped xs @ swapped ys"
  by (induction xs rule: swapped.induct) simp_all

lemma quoted_slippages_append:
  "quoted_slippages (xs @ ys) = quoted_slippages xs @ quoted_slippages ys"
  by (induction xs rule: quoted_slippages.induct) simp_all

lemma trace_called: "trace (called c w) = trace w @ [c]"
  by (simp add: called_def)

lemma clock_called: "clock (called c w) = Suc (clock w)"
  by (simp add: called_def)

lemma doSwap_eq:
  "doSwap e q w =
     (case swap_at e (clock w) q of Confirmed sg \<Rightarrow> Inr sg | SwapFails msg \<Rightarrow> Inl msg,
      called (SwapCall q) w)"
  by (simp add: doSwap_def)

lemma buy_attempt_eq:
  "buy_attempt e cfg mnt b w =
     (case quote_at e (clock w) (buy_request cfg mnt (lamportsBudget b)) of
        QuoteFails msg \<Rightarrow> (Inl msg, called (QuoteCall (buy_request cfg mnt (lamportsBudget b))) w)
      | Route pl \<Rightarrow>
          doSwap e \<lparr> answers = buy_request cfg mnt (lamportsBudget b), payload = pl \<rparr>
            (called (QuoteCall (buy_request cfg mnt (lamportsBudget b))) w)
      | NoRoute \<Rightarrow>
          (case quote_at e (Suc (clock w)) (buy_request cfg mnt (probeLamports cfg b)) of
             Route x \<Rightarrow>
               (case quote_at e (Suc (Suc (clock w))) (buy_request cfg mnt (lamportsBudget b)) of
                  QuoteFails msg \<Rightarrow>
                    (Inl msg,
                     called (QuoteCall (buy_request cfg mnt (lamportsBudget b)))
                       (called (QuoteCall (buy_request cfg mnt (probeLamports cfg b)))
                         (called (QuoteCall (buy_request cfg mnt (lamportsBudget b))) w)))
                | Route pl \<Rightarrow>
                    doSwap e \<lparr> answers = buy_request cfg mnt (lamportsBudget b), payload = pl \<rparr>
                      (called (QuoteCall (buy_request cfg mnt (lamportsBudget b)))
                        (called (QuoteCall (buy_request cfg mnt (probeLamports cfg b)))
                          (called (QuoteCall (buy_request cfg mnt (lamportsBudget b))) w)))
                | NoRoute \<Rightarrow>
                    (Inl ''noviableroute'',
                     called (QuoteCall (buy_request cfg mnt (lamportsBudget b)))
                       (called (QuoteCall (buy_request cfg mnt (probeLamports cfg b)))
                         (called (QuoteCall (buy_request cfg mnt (lamportsBudget b))) w))))
           | NoRoute \<Rightarrow>
               (Inl ''noviableroute'',
                called (QuoteCall (buy_request cfg mnt (probeLamports cfg b)))
                  (called (QuoteCall (buy_request cfg mnt (lamportsBudget b))) w))
           | QuoteFails x \<Rightarrow>
               (Inl ''noviableroute'',
                called (QuoteCall (buy_request cfg mnt (probeLamports cfg b)))
                  (called (QuoteCall (buy_request cfg mnt (lamportsBudget b))) w))))"
  by (simp add: buy_attempt_def getQuote_def clock_called split: quote_answer.splits)

lemma buy_attempt_trace:
  "\<exists>cs. trace (snd (buy_attempt e cfg mnt b w)) = trace w @ cs
        \<and> set (swapped cs) \<subseteq> {buy_request cfg mnt (lamportsBudget b)}"
  by (simp add: buy_attempt_eq doSwap_eq trace_called split: quote_answer.splits)

lemma buy_loop_trace:
  "\<exists>cs. trace (snd (buy_loop e cfg mnt b ds w)) = trace w @ cs
        \<and> set (swapped cs) \<subseteq> {buy_request cfg mnt (lamportsBudget b)}"
proof (induction ds arbitrary: w)
  case Nil
  then show ?case by (simp add: buy_attempt_trace)
next
  case (Cons d ds)
  obtain r w1 where a: "buy_attempt e cfg mnt b w = (r, w1)"
    by (cases "buy_attempt e cfg mnt b w")
  from buy_attempt_trace[of e cfg mnt b w] a
  obtain cs where cs: "trace w1 = trace w @ cs"
    "set (swapped cs) \<subseteq> {buy_request cfg mnt (lamportsBudget b)}" by auto
  show ?case
  proof (cases "\<exists>msg. r = Inl msg \<and> retryable msg")
    case True
    then obtain msg where m: "r = Inl msg" "retryable msg" by blast
    from Cons.IH[of "called (Sleep d) w1"]
    obtain cs' where cs': "trace (snd (buy_loop e cfg mnt b ds (called (Sleep d) w1)))
         = trace (called (Sleep d) w1) @ cs'"
      "set (swapped cs') \<subseteq> {buy_request cfg mnt (lamportsBudget b)}" by blast
    have "trace (snd (buy_loop e cfg mnt b (d # ds) w)) = trace w @ (cs @ Sleep d # cs')"
      using a m cs cs' by (simp add: trace_called)
    moreover have "set (swapped (cs @ Sleep d # cs')) \<subseteq> {buy_request cfg mnt (lamportsBudget b)}"
      using cs(2) cs'(2) by (simp add: swapped_append)
    ultimately show ?thesis by blast
  next
    case False
    then have "snd (buy_loop e cfg mnt b (d # ds) w) = w1"
      using a by (cases r) auto
    with cs show ?thesis by auto
  qed
qed

lemma buyTokenWithSol_trace:
  "\<exists>cs. trace (snd (buyTokenWithSol e cfg mnt b w)) = trace w @ cs
        \<and> set (swapped cs) \<subseteq> {buy_request cfg mnt (lamportsBudget b)}"
proof -
  from buy_loop_trace[of e cfg mnt b delays "w\<lparr> locks := insert mnt (locks w) \<rparr>"]
  obtain cs where "trace (snd (buy_loop e cfg mnt b delays (w\<lparr> locks := insert mnt (locks w) \<rparr>)))
       = trace w @ cs" "set (swapped cs) \<subseteq> {buy_request cfg mnt (lamportsBudget b)}"
    by auto
  then show ?thesis
    by (auto simp: buyTokenWithSol_def case_prod_beta)
qed



lemma noroute_literal: "is_noroute ''noviableroute''"
  by code_simp

lemma retryable_noroute: "retryable ''noviableroute''"
  by (simp add: retryable_def noroute_literal)

lemma buy_attempt_locks:
  "buy_attempt e cfg mnt b (w\<lparr> locks := L \<rparr>)
     = (fst (buy_attempt e cfg mnt b w), (snd (buy_attempt e cfg mnt b w))\<lparr> locks := L \<rparr>)"
  by (simp add: buy_attempt_eq doSwap_eq called_def
      split: quote_answer.splits swap_answer.splits)

lemma buy_loop_first_final:
  assumes "\<forall>msg. fst (buy_attempt e cfg mnt b w) = Inl msg \<longrightarrow> \<not> retryable msg"
  shows "buy_loop e cfg mnt b ds w = buy_attempt e cfg mnt b w"
proof (cases ds)
  case Nil
  then show ?thesis by simp
next
  case (Cons d ds')
  with assms show ?thesis
    by (cases "buy_attempt e cfg mnt b w") (auto split: sum.splits)
qed

lemma buy_loop_first_retry:
  assumes "fst (buy_attempt e cfg mnt b w) = Inl msg" and "retryable msg"
  shows "\<exists>cs. trace (snd (buy_loop e cfg mnt b (d # ds) w))
              = trace (snd (buy_attempt e cfg mnt b w)) @ Sleep d # cs"
proof -
  obtain w1 where a: "buy_attempt e cfg mnt b w = (Inl msg, w1)"
    using assms(1) by (cases "buy_attempt e cfg mnt b w") simp
  from buy_loop_trace[of e cfg mnt b ds "called (Sleep d) w1"]
  obtain cs where "trace (snd (buy_loop e cfg mnt b ds (called (Sleep d) w1)))
      = trace (called (Sleep d) w1) @ cs" by blast
  with a assms(2) show ?thesis
    by (simp add: trace_called)
qed

lemma buyTokenWithSol_final:
  assumes "AUTO_TRADE cfg" and "mnt \<notin> locks w"
      and "\<forall>msg. fst (buy_attempt e cfg mnt b w) = Inl msg \<longrightarrow> \<not> retryable msg"
  shows "fst (buyTokenWithSol e cfg mnt b w) = fst (buy_attempt e cfg mnt b w)
       \<and> new_calls w (snd (buyTokenWithSol e cfg mnt b w))
           = new_calls w (snd (buy_attempt e cfg mnt b w))"
proof -
  have "\<forall>msg. fst (buy_attempt e cfg mnt b (w\<lparr> locks := insert mnt (locks w) \<rparr>)) = Inl msg
          \<longrightarrow> \<not> retryable msg"
    using assms(3) by (simp add: buy_attempt_locks)
  then have "buy_loop e cfg mnt b delays (w\<lparr> locks := insert mnt (locks w) \<rparr>)
      = buy_attempt e cfg mnt b (w\<lparr> locks := insert mnt (locks w) \<rparr>)"
    by (rule buy_loop_first_final)
  with assms(1,2) show ?thesis
    by (simp add: buyTokenWithSol_def buy_attempt_locks new_calls_def)
qed

lemma buyTokenWithSol_retry:
  assumes "AUTO_TRADE cfg" and "mnt \<notin> locks w"
      and "fst (buy_attempt e cfg mnt b w) = Inl msg" and "retryable msg"
  shows "take (Suc (length (new_calls w (snd (buy_attempt e cfg mnt b w)))))
              (new_calls w (snd (buyTokenWithSol e cfg mnt b w)))
           = new_calls w (snd (buy_attempt e cfg mnt b w)) @ [Sleep 5000]"
proof -
  let ?w = "w\<lparr> locks := insert mnt (locks w) \<rparr>"
  have f: "fst (buy_attempt e cfg mnt b ?w) = Inl msg"
    using assms(3) by (simp add: buy_attempt_locks)
  have d: "delays = 5000 # tl delays"
    by (simp add: delays_def)
  from buy_loop_first_retry[OF f assms(4), of 5000 "tl delays"] d
  obtain cs where cs: "trace (snd (buy_loop e cfg mnt b delays ?w))
              = trace (snd (buy_attempt e cfg mnt b ?w)) @ Sleep 5000 # cs"
    by auto
  from buy_attempt_trace[of e cfg mnt b w]
  obtain cs0 where cs0: "trace (snd (buy_attempt e cfg mnt b w)) = trace w @ cs0"
    by blast
  have "trace (snd (buyTokenWithSol e cfg mnt b w)) = trace w @ cs0 @ Sleep 5000 # cs"
    using assms(1,2) cs cs0
    by (simp add: buyTokenWithSol_def case_prod_beta buy_attempt_locks)
  with cs0 show ?thesis
    by (simp add: new_calls_def)
qed

lemma buy_attempt_no_route:
  assumes "\<forall>n req. quote_at e n req = NoRoute"
  shows "buy_attempt e cfg mnt b w
       = (Inl ''noviableroute'',
          called (QuoteCall (buy_request cfg mnt (probeLamports cfg b)))
            (called (QuoteCall (buy_request cfg mnt (lamportsBudget b))) w))"
  using assms by (simp add: buy_attempt_eq)

lemma buy_loop_no_route:
  assumes "\<forall>n req. quote_at e n req = NoRoute"
  shows "fst (buy_loop e cfg mnt b ds w) = Inl ''noviableroute''
       \<and> (\<exists>cs. trace (snd (buy_loop e cfg mnt b ds w)) = trace w @ cs \<and> swapped cs = [])"
proof (induction ds arbitrary: w)
  case Nil
  show ?case
    by (simp add: buy_attempt_no_route[OF assms] trace_called)
next
  case (Cons d ds)
  let ?w1 = "called (Sleep d)
      (called (QuoteCall (buy_request cfg mnt (probeLamports cfg b)))
        (called (QuoteCall (buy_request cfg mnt (lamportsBudget b))) w))"
  have l: "buy_loop e cfg mnt b (d # ds) w = buy_loop e cfg mnt b ds ?w1"
    by (simp add: buy_attempt_no_route[OF assms] retryable_noroute)
  from Cons.IH[of ?w1] obtain cs where
    cs: "trace (snd (buy_loop e cfg mnt b ds ?w1)) = trace ?w1 @ cs" "swapped cs = []"
    by blast
  have "trace (snd (buy_loop e cfg mnt b (d # ds) w))
      = trace w @ ([QuoteCall (buy_request cfg mnt (lamportsBudget b)),
                    QuoteCall (buy_request cfg mnt (probeLamports cfg b)), Sleep d] @ cs)"
    unfolding l cs(1) by (simp add: trace_called)
  moreover have "swapped ([QuoteCall (buy_request cfg mnt (lamportsBudget b)),
                    QuoteCall (buy_request cfg mnt (probeLamports cfg b)), Sleep d] @ cs) = []"
    using cs(2) by simp
  ultimately show ?case
    using Cons.IH[of ?w1] unfolding l by blast
qed

lemma buyTokenWithSol_no_route:
  assumes "AUTO_TRADE cfg" and "mnt \<notin> locks w" and "\<forall>n req. quote_at e n req = NoRoute"
  shows "fst (buyTokenWithSol e cfg mnt b w) = Inl ''noviableroute''
       \<and> swapped (new_calls w (snd (buyTokenWithSol e cfg mnt b w))) = []"
proof -
  from buy_loop_no_route[OF assms(3), of cfg mnt b delays "w\<lparr> locks := insert mnt (locks w) \<rparr>"]
  obtain cs where "fst (buy_loop e cfg mnt b delays (w\<lparr> locks := insert mnt (locks w) \<rparr>))
      = Inl ''noviableroute''"
    "trace (snd (buy_loop e cfg mnt b delays (w\<lparr> locks := insert mnt (locks w) \<rparr>)))
      = trace w @ cs" "swapped cs = []"
    by auto
  with assms(1,2) show ?thesis
    by (simp add: buyTokenWithSol_def case_prod_beta new_calls_def)
qed

text \<open>
  Claim C7. When the quote at the configured budget has no route, the next call of the
  attempt is a probe quote whose amount is the larger of the budget and the probe amount.
  When the probe has no route or fails, the attempt fails with \<open>noviableroute\<close> and
  nothing else is called. When the probe has a route, the budget is quoted again, and only
  a quote returned by that second request is swapped. \<open>buyTokenWithSol\<close>, with
  auto-trading on and no lock on the mint, runs this attempt first: it returns the
  attempt's outcome after the attempt's calls when that is a success or an error that is
  not retried, and goes into its first backoff right after the attempt's calls when the
  error is retried, as \<open>noviableroute\<close> is. So a probe without a route is followed by
  the backoff and not by a swap, and a probe with a route by the second quote at the
  budget and the swap of that quote. When no quote ever has a route, \<open>buyTokenWithSol\<close>
  fails with \<open>noviableroute\<close> and has swapped nothing. Over the whole of
  \<open>buyTokenWithSol\<close>, all retries included, every quote handed to the swap answers the
  request at the budget.
\<close>

theorem buy_probe_requote:
  assumes "quote_at e (clock w) (buy_request cfg mnt (lamportsBudget b)) = NoRoute"
  shows "new_calls w (snd (buy_attempt e cfg mnt b w))
           = QuoteCall (buy_request cfg mnt (lamportsBudget b))
             # QuoteCall (buy_request cfg mnt (probeLamports cfg b))
             # (case quote_at e (Suc (clock w)) (buy_request cfg mnt (probeLamports cfg b)) of
                  Route x \<Rightarrow>
                    QuoteCall (buy_request cfg mnt (lamportsBudget b))
                    # (case quote_at e (Suc (Suc (clock w))) (buy_request cfg mnt (lamportsBudget b)) of
                         Route pl \<Rightarrow>
                           [SwapCall \<lparr> answers = buy_request cfg mnt (lamportsBudget b),
                                       payload = pl \<rparr>]
                       | NoRoute \<Rightarrow> []
                       | QuoteFails msg \<Rightarrow> [])
                | NoRoute \<Rightarrow> []
                | QuoteFails msg \<Rightarrow> [])
       \<and> fst (buy_attempt e cfg mnt b w)
           = (case quote_at e (Suc (clock w)) (buy_request cfg mnt (probeLamports cfg b)) of
                Route x \<Rightarrow>
                  (case quote_at e (Suc (Suc (clock w))) (buy_request cfg mnt (lamportsBudget b)) of
                     Route pl \<Rightarrow>
                       (case swap_at e (Suc (Suc (Suc (clock w))))
                               \<lparr> answers = buy_request cfg mnt (lamportsBudget b), payload = pl \<rparr> of
                          Confirmed sg \<Rightarrow> Inr sg
                        | SwapFails msg \<Rightarrow> Inl msg)
                   | NoRoute \<Rightarrow> Inl ''noviableroute''
                   | QuoteFails msg \<Rightarrow> Inl msg)
              | NoRoute \<Rightarrow> Inl ''noviableroute''
              | QuoteFails msg \<Rightarrow> Inl ''noviableroute'')
       \<and> req_amount (buy_request cfg mnt (probeLamports cfg b))
           = max (lamportsBudget b)
                 (floor ((case JUP_PROBE_SOL cfg of None \<Rightarrow> 1 / 50 | Some v \<Rightarrow> v) * 1000000000))
       \<and> req_amount (buy_request cfg mnt (lamportsBudget b)) = lamportsBudget b
       \<and> (AUTO_TRADE cfg \<and> mnt \<notin> locks w
            \<and> (\<forall>msg. fst (buy_attempt e cfg mnt b w) = Inl msg \<longrightarrow> \<not> retryable msg)
          \<longrightarrow> fst (buyTokenWithSol e cfg mnt b w) = fst (buy_attempt e cfg mnt b w)
              \<and> new_calls w (snd (buyTokenWithSol e cfg mnt b w))
                  = new_calls w (snd (buy_attempt e cfg mnt b w)))
       \<and> (AUTO_TRADE cfg \<and> mnt \<notin> locks w
            \<and> fst (buy_attempt e cfg mnt b w) = Inl m \<and> retryable m
          \<longrightarrow> take (Suc (length (new_calls w (snd (buy_attempt e cfg mnt b w)))))
                    (new_calls w (snd (buyTokenWithSol e cfg mnt b w)))
                = new_calls w (snd (buy_attempt e cfg mnt b w)) @ [Sleep 5000])
       \<and> (AUTO_TRADE cfg \<and> mnt \<notin> locks w
            \<and> (\<forall>x. quote_at e (Suc (clock w)) (buy_request cfg mnt (probeLamports cfg b))
                     \<noteq> Route x)
          \<longrightarrow> take 3 (new_calls w (snd (buyTokenWithSol e cfg mnt b w)))
                = [QuoteCall (buy_request cfg mnt (lamportsBudget b)),
                   QuoteCall (buy_request cfg mnt (probeLamports cfg b)),
                   Sleep 5000])
       \<and> (AUTO_TRADE cfg \<and> mnt \<notin> locks w
            \<and> quote_at e (Suc (clock w)) (buy_request cfg mnt (probeLamports cfg b)) = Route x
            \<and> quote_at e (Suc (Suc (clock w))) (buy_request cfg mnt (lamportsBudget b)) = Route pl
            \<and> swap_at e (Suc (Suc (Suc (clock w))))
                 \<lparr> answers = buy_request cfg mnt (lamportsBudget b), payload = pl \<rparr>
               = Confirmed sg
          \<longrightarrow> fst (buyTokenWithSol e cfg mnt b w) = Inr sg
              \<and> new_calls w (snd (buyTokenWithSol e cfg mnt b w))
                  = [QuoteCall (buy_request cfg mnt (lamportsBudget b)),
                     QuoteCall (buy_request cfg mnt (probeLamports cfg b)),
                     QuoteCall (buy_request cfg mnt (lamportsBudget b)),
                     SwapCall \<lparr> answers = buy_request cfg mnt (lamportsBudget b),
                                 payload = pl \<rparr>])
       \<and> (AUTO_TRADE cfg \<and> mnt \<notin> locks w \<and> (\<forall>n req. quote_at e n req = NoRoute)
          \<longrightarrow> fst (buyTokenWithSol e cfg mnt b w) = Inl ''noviableroute''
              \<and> swapped (new_calls w (snd (buyTokenWithSol e cfg mnt b w))) = [])
       \<and> set (swapped (new_calls w0 (snd (buyTokenWithSol e cfg mnt b w0))))
           \<subseteq> {buy_request cfg mnt (lamportsBudget b)}"
proof -
  have a: "new_calls w (snd (buy_attempt e cfg mnt b w))
           = QuoteCall (buy_request cfg mnt (lamportsBudget b))
             # QuoteCall (buy_request cfg mnt (probeLamports cfg b))
             # (case quote_at e (Suc (clock w)) (buy_request cfg mnt (probeLamports cfg b)) of
                  Route x \<Rightarrow>
                    QuoteCall (buy_request cfg mnt (lamportsBudget b))
                    # (case quote_at e (Suc (Suc (clock w))) (buy_request cfg mnt (lamportsBudget b)) of
                         Route pl \<Rightarrow>
                           [SwapCall \<lparr> answers = buy_request cfg mnt (lamportsBudget b),
                                       payload = pl \<rparr>]
                       | NoRoute \<Rightarrow> []
                       | QuoteFails msg \<Rightarrow> [])
                | NoRoute \<Rightarrow> []
                | QuoteFails msg \<Rightarrow> [])"
    using assms
    by (simp add: buy_attempt_eq doSwap_eq new_calls_def trace_called split: quote_answer.splits)
  have r: "fst (buy_attempt e cfg mnt b w)
           = (case quote_at e (Suc (clock w)) (buy_request cfg mnt (probeLamports cfg b)) of
                Route x \<Rightarrow>
                  (case quote_at e (Suc (Suc (clock w))) (buy_request cfg mnt (lamportsBudget b)) of
                     Route pl \<Rightarrow>
                       (case swap_at e (Suc (Suc (Suc (clock w))))
                               \<lparr> answers = buy_request cfg mnt (lamportsBudget b), payload = pl \<rparr> of
                          Confirmed sg \<Rightarrow> Inr sg
                        | SwapFails msg \<Rightarrow> Inl msg)
                   | NoRoute \<Rightarrow> Inl ''noviableroute''
                   | QuoteFails msg \<Rightarrow> Inl msg)
              | NoRoute \<Rightarrow> Inl ''noviableroute''
              | QuoteFails msg \<Rightarrow> Inl ''noviableroute'')"
    using assms
    by (simp add: buy_attempt_eq doSwap_eq clock_called split: quote_answer.splits)
  have p: "req_amount (buy_request cfg mnt (probeLamports cfg b))
           = max (lamportsBudget b)
                 (floor ((case JUP_PROBE_SOL cfg of None \<Rightarrow> 1 / 50 | Some v \<Rightarrow> v) * 1000000000))"
    "req_amount (buy_request cfg mnt (lamportsBudget b)) = lamportsBudget b"
    by (simp_all add: buy_request_def probeLamports_def)
  have t1: "fst (buyTokenWithSol e cfg mnt b w) = fst (buy_attempt e cfg mnt b w)
              \<and> new_calls w (snd (buyTokenWithSol e cfg mnt b w))
                  = new_calls w (snd (buy_attempt e cfg mnt b w))"
    if "AUTO_TRADE cfg" "mnt \<notin> locks w"
      "\<forall>msg. fst (buy_attempt e cfg mnt b w) = Inl msg \<longrightarrow> \<not> retryable msg"
    using that by (rule buyTokenWithSol_final)
  have t2: "take (Suc (length (new_calls w (snd (buy_attempt e cfg mnt b w)))))
                    (new_calls w (snd (buyTokenWithSol e cfg mnt b w)))
                = new_calls w (snd (buy_attempt e cfg mnt b w)) @ [Sleep 5000]"
    if "AUTO_TRADE cfg" "mnt \<notin> locks w" "fst (buy_attempt e cfg mnt b w) = Inl m" "retryable m"
    using that by (rule buyTokenWithSol_retry)
  have d1: "take 3 (new_calls w (snd (buyTokenWithSol e cfg mnt b w)))
                = [QuoteCall (buy_request cfg mnt (lamportsBudget b)),
                   QuoteCall (buy_request cfg mnt (probeLamports cfg b)),
                   Sleep 5000]"
    if h: "AUTO_TRADE cfg" "mnt \<notin> locks w"
      "\<forall>x. quote_at e (Suc (clock w)) (buy_request cfg mnt (probeLamports cfg b)) \<noteq> Route x"
  proof -
    have f: "fst (buy_attempt e cfg mnt b w) = Inl ''noviableroute''"
      unfolding r using h(3) by (simp split: quote_answer.splits)
    have n: "new_calls w (snd (buy_attempt e cfg mnt b w))
        = [QuoteCall (buy_request cfg mnt (lamportsBudget b)),
           QuoteCall (buy_request cfg mnt (probeLamports cfg b))]"
      unfolding a using h(3) by (simp split: quote_answer.splits)
    from buyTokenWithSol_retry[OF h(1,2) f retryable_noroute] show ?thesis
      unfolding n by (simp add: numeral_3_eq_3)
  qed
  have d2: "fst (buyTokenWithSol e cfg mnt b w) = Inr sg
              \<and> new_calls w (snd (buyTokenWithSol e cfg mnt b w))
                  = [QuoteCall (buy_request cfg mnt (lamportsBudget b)),
                     QuoteCall (buy_request cfg mnt (probeLamports cfg b)),
                     QuoteCall (buy_request cfg mnt (lamportsBudget b)),
                     SwapCall \<lparr> answers = buy_request cfg mnt (lamportsBudget b),
                                 payload = pl \<rparr>]"
    if h: "AUTO_TRADE cfg" "mnt \<notin> locks w"
      "quote_at e (Suc (clock w)) (buy_request cfg mnt (probeLamports cfg b)) = Route x"
      "quote_at e (Suc (Suc (clock w))) (buy_request cfg mnt (lamportsBudget b)) = Route pl"
      "swap_at e (Suc (Suc (Suc (clock w))))
                 \<lparr> answers = buy_request cfg mnt (lamportsBudget b), payload = pl \<rparr>
               = Confirmed sg"
  proof -
    have f: "fst (buy_attempt e cfg mnt b w) = Inr sg"
      unfolding r using h(3-5) by simp
    have n: "new_calls w (snd (buy_attempt e cfg mnt b w))
        = [QuoteCall (buy_request cfg mnt (lamportsBudget b)),
           QuoteCall (buy_request cfg mnt (probeLamports cfg b)),
           QuoteCall (buy_request cfg mnt (lamportsBudget b)),
           SwapCall \<lparr> answers = buy_request cfg mnt (lamportsBudget b), payload = pl \<rparr>]"
      unfolding a using h(3,4) by simp
    have "\<forall>msg. fst (buy_attempt e cfg mnt b w) = Inl msg \<longrightarrow> \<not> retryable msg"
      unfolding f by simp
    from buyTokenWithSol_final[OF h(1,2) this] show ?thesis
      unfolding f n .
  qed
  have nr: "fst (buyTokenWithSol e cfg mnt b w) = Inl ''noviableroute''
              \<and> swapped (new_calls w (snd (buyTokenWithSol e cfg mnt b w))) = []"
    if "AUTO_TRADE cfg" "mnt \<notin> locks w" "\<forall>n req. quote_at e n req = NoRoute"
    using that by (rule buyTokenWithSol_no_route)
  from buyTokenWithSol_trace[of e cfg mnt b w0]
  have s: "set (swapped (new_calls w0 (snd (buyTokenWithSol e cfg mnt b w0))))
           \<subseteq> {buy_request cfg mnt (lamportsBudget b)}"
    by (auto simp: new_calls_def)
  show ?thesis
  proof (intro conjI impI)
    show "new_calls w (snd (buy_attempt e cfg mnt b w))
           = QuoteCall (buy_request cfg mnt (lamportsBudget b))
             # QuoteCall (buy_request cfg mnt (probeLamports cfg b))
             # (case quote_at e (Suc (clock w)) (buy_request cfg mnt (probeLamports cfg b)) of
                  Route x \<Rightarrow>
                    QuoteCall (buy_request cfg mnt (lamportsBudget b))
                    # (case quote_at e (Suc (Suc (clock w))) (buy_request cfg mnt (lamportsBudget b)) of
                         Route pl \<Rightarrow>
                           [SwapCall \<lparr> answers = buy_request cfg mnt (lamportsBudget b),
                                       payload = pl \<rparr>]
                       | NoRoute \<Rightarrow> []
                       | QuoteFails msg \<Rightarrow> [])
                | NoRoute \<Rightarrow> []
                | QuoteFails msg \<Rightarrow> [])"
      by (rule a)
  qed (use r p s t1 t2 d1 d2 nr in \<open>blast+\<close>)
qed

theorem buy_probe_requote_witness:
  "quote_at env_probe (clock world0) (buy_request cfg_default ''M1'' (lamportsBudget (1 / 100))) = NoRoute
   \<and> AUTO_TRADE cfg_default \<and> ''M1'' \<notin> locks world0
   \<and> lamportsBudget (1 / 100) = 10000000
   \<and> probeLamports cfg_default (1 / 100) = 20000000
   \<and> new_calls world0 (snd (buy_attempt env_probe cfg_default ''M1'' (1 / 100) world0))
       = [QuoteCall (buy_request cfg_default ''M1'' 10000000),
          QuoteCall (buy_request cfg_default ''M1'' 20000000),
          QuoteCall (buy_request cfg_default ''M1'' 10000000),
          SwapCall \<lparr> answers = buy_request cfg_default ''M1'' 10000000, payload = 7 \<rparr>]
   \<and> fst (buy_attempt env_probe cfg_default ''M1'' (1 / 100) world0) = Inr ''buysig''
   \<and> fst (buyTokenWithSol env_probe cfg_default ''M1'' (1 / 100) world0) = Inr ''buysig''
   \<and> new_calls world0 (snd (buyTokenWithSol env_probe cfg_default ''M1'' (1 / 100) world0))
       = [QuoteCall (buy_request cfg_default ''M1'' 10000000),
          QuoteCall (buy_request cfg_default ''M1'' 20000000),
          QuoteCall (buy_request cfg_default ''M1'' 10000000),
          SwapCall \<lparr> answers = buy_request cfg_default ''M1'' 10000000, payload = 7 \<rparr>]
   \<and> fst (buyTokenWithSol env_no_route cfg_default ''M1'' (1 / 100) world0)
       = Inl ''noviableroute''
   \<and> take 3 (new_calls world0
               (snd (buyTokenWithSol env_no_route cfg_default ''M1'' (1 / 100) world0)))
       = [QuoteCall (buy_request cfg_default ''M1'' 10000000),
          QuoteCall (buy_request cfg_default ''M1'' 20000000),
          Sleep 5000]"
proof -
  have c0: "clock world0 = 0"
    by (simp add: world0_def)
  have h: "quote_at env_probe (clock world0)
             (buy_request cfg_default ''M1'' (lamportsBudget (1 / 100))) = NoRoute"
    by (simp add: env_probe_def c0)
  have h': "quote_at env_no_route (clock world0)
             (buy_request cfg_default ''M1'' (lamportsBudget (1 / 100))) = NoRoute"
    by (simp add: env_no_route_def)
  have g: "AUTO_TRADE cfg_default" "''M1'' \<notin> locks world0"
    by (simp_all add: cfg_default_def world0_def)
  have l: "lamportsBudget (1 / 100) = 10000000" "probeLamports cfg_default (1 / 100) = 20000000"
    by (simp_all add: lamportsBudget_def probeLamports_def cfg_default_def)
  have n: "\<forall>n req. quote_at env_no_route n req = NoRoute"
    "\<forall>x. quote_at env_no_route (Suc (clock world0))
            (buy_request cfg_default ''M1'' (probeLamports cfg_default (1 / 100))) \<noteq> Route x"
    by (simp_all add: env_no_route_def)
  have q: "quote_at env_probe (Suc (clock world0))
             (buy_request cfg_default ''M1'' (probeLamports cfg_default (1 / 100))) = Route 7"
    "quote_at env_probe (Suc (Suc (clock world0)))
             (buy_request cfg_default ''M1'' (lamportsBudget (1 / 100))) = Route 7"
    "swap_at env_probe (Suc (Suc (Suc (clock world0))))
        \<lparr> answers = buy_request cfg_default ''M1'' (lamportsBudget (1 / 100)), payload = 7 \<rparr>
       = Confirmed ''buysig''"
    by (simp_all add: env_probe_def)
  from buy_probe_requote [OF h, where x = 7 and pl = 7 and sg = "''buysig''"] q g
  have p1: "new_calls world0 (snd (buy_attempt env_probe cfg_default ''M1'' (1 / 100) world0))
       = [QuoteCall (buy_request cfg_default ''M1'' (lamportsBudget (1 / 100))),
          QuoteCall (buy_request cfg_default ''M1'' (probeLamports cfg_default (1 / 100))),
          QuoteCall (buy_request cfg_default ''M1'' (lamportsBudget (1 / 100))),
          SwapCall \<lparr> answers = buy_request cfg_default ''M1'' (lamportsBudget (1 / 100)),
                      payload = 7 \<rparr>]"
    and p2: "fst (buy_attempt env_probe cfg_default ''M1'' (1 / 100) world0) = Inr ''buysig''"
    and p3: "fst (buyTokenWithSol env_probe cfg_default ''M1'' (1 / 100) world0) = Inr ''buysig''"
    and p4: "new_calls world0 (snd (buyTokenWithSol env_probe cfg_default ''M1'' (1 / 100) world0))
       = [QuoteCall (buy_request cfg_default ''M1'' (lamportsBudget (1 / 100))),
          QuoteCall (buy_request cfg_default ''M1'' (probeLamports cfg_default (1 / 100))),
          QuoteCall (buy_request cfg_default ''M1'' (lamportsBudget (1 / 100))),
          SwapCall \<lparr> answers = buy_request cfg_default ''M1'' (lamportsBudget (1 / 100)),
                      payload = 7 \<rparr>]"
    by simp_all
  from buy_probe_requote [OF h'] n g
  have p5: "fst (buyTokenWithSol env_no_route cfg_default ''M1'' (1 / 100) world0)
       = Inl ''noviableroute''"
    and p6: "take 3 (new_calls world0
               (snd (buyTokenWithSol env_no_route cfg_default ''M1'' (1 / 100) world0)))
       = [QuoteCall (buy_request cfg_default ''M1'' (lamportsBudget (1 / 100))),
          QuoteCall (buy_request cfg_default ''M1'' (probeLamports cfg_default (1 / 100))),
          Sleep 5000]"
    by blast+
  from h g l p1 p2 p3 p4 p5 p6 show ?thesis
    unfolding l by (intro conjI)
qed

subsection \<open>Sell path\<close>

lemma rungs_cascade: "rungs attempt ss w = cascade (map attempt ss) w"
  by (induction ss arbitrary: w) (simp_all split: prod.splits sum.splits)

lemma cascade_append:
  "cascade (xs @ ys) w =
     (case cascade xs w of (Some r, w1) \<Rightarrow> (Some r, w1) | (None, w1) \<Rightarrow> cascade ys w1)"
  by (induction xs arbitrary: w) (simp_all split: prod.splits sum.splits)

lemma sellTokenForSol_cascade:
  assumes "mnt \<noteq> SOL_MINT" and "0 < amountRaw"
  shows "sellTokenForSol e cfg mnt amountRaw w =
           (case cascade (sell_attempts e cfg mnt amountRaw) w of
              (Some r, w') \<Rightarrow> (r, w')
            | (None, w') \<Rightarrow> (Inl ''noviableroute: token illiquid or dust too small'', w'))"
  using assms
  by (simp add: sellTokenForSol_def sell_attempts_def Let_def rungs_cascade cascade_append
      split: prod.splits option.splits)

lemma cascade_decisive:
  assumes "advance pre w = Some w0" and "a w0 = (r, w1)" and "decisive r"
  shows "cascade (pre @ a # post) w = (Some r, w1)"
  using assms
proof (induction pre arbitrary: w)
  case Nil
  then show ?case by (cases r) (simp_all add: decisive_def)
next
  case (Cons x pre)
  then show ?case by (auto split: prod.splits sum.splits if_splits)
qed

lemma cascade_exhausted:
  "advance as w = Some w' \<Longrightarrow> cascade as w = (None, w')"
  by (induction as arbitrary: w) (auto split: prod.splits sum.splits if_splits)

lemma http500_not_noroute: "\<not> is_noroute ''swap http 500: boom''"
  by code_simp


lemma trySell_eq:
  "trySell e mnt out amt slip w =
     (case quote_at e (clock w) (sell_request mnt out amt slip) of
        Route pl \<Rightarrow>
          doSwap e \<lparr> answers = sell_request mnt out amt slip, payload = pl \<rparr>
            (called (QuoteCall (sell_request mnt out amt slip)) w)
      | NoRoute \<Rightarrow> (Inl ''noviableroute'', called (QuoteCall (sell_request mnt out amt slip)) w)
      | QuoteFails msg \<Rightarrow> (Inl msg, called (QuoteCall (sell_request mnt out amt slip)) w))"
  by (simp add: trySell_def getQuote_def split: quote_answer.splits)

lemma usdc_not_sol: "USDC_MINT \<noteq> SOL_MINT"
  by (simp add: USDC_MINT_def SOL_MINT_def)

lemma usdc_balance:
  "getTokenBalance e USDC_MINT w
     = (Inr (case balance_at e (clock w) USDC_MINT of Balance b \<Rightarrow> b | BalanceFails msg \<Rightarrow> 0),
        called (BalanceCall USDC_MINT) w)"
  by (simp add: getTokenBalance_def usdc_not_sol split: balance_answer.splits)

lemma two_hop_after_first_hop:
  assumes "toUSDC e mnt amt slip w = (Inr sig1, w1)"
  shows "fst (two_hop e mnt amt slip w) = Inr sig1
       \<or> (\<exists>sig2. fst (two_hop e mnt amt slip w) = Inr (sig1 @ '' , '' @ sig2))"
  using assms
  by (simp add: two_hop_def usdc_balance getQuote_def doSwap_def
      split: quote_answer.splits swap_answer.splits)

lemma two_hop_balance_fails:
  assumes "toUSDC e mnt amt slip w = (Inr sig1, w1)"
      and "balance_at e (clock w1) USDC_MINT = BalanceFails msg"
  shows "two_hop e mnt amt slip w = (Inr sig1, called (BalanceCall USDC_MINT) w1)"
  using assms by (simp add: two_hop_def usdc_balance)

lemma two_hop_fails:
  "fst (two_hop e mnt amt slip w) = Inl msg \<longleftrightarrow> fst (toUSDC e mnt amt slip w) = Inl msg"
proof (cases "toUSDC e mnt amt slip w")
  case (Pair r w1)
  show ?thesis
  proof (cases r)
    case (Inl m)
    with Pair show ?thesis by (simp add: two_hop_def)
  next
    case (Inr sig1)
    with Pair two_hop_after_first_hop[of e mnt amt slip w sig1 w1] show ?thesis by auto
  qed
qed

lemma uniq_set: "set (uniq seen xs) = set xs - set seen"
  by (induction xs arbitrary: seen) auto

lemma sell_slips_set:
  "set (sell_slips cfg) = {base_slippage cfg, 400, 700, 900, min (MAX_SLIPPAGE_BPS cfg) 1100}"
  unfolding sell_slips_def Let_def uniq_set by auto

lemma sell_slips_within_max:
  "(\<forall>s\<in>set (sell_slips cfg). s \<le> MAX_SLIPPAGE_BPS cfg)
     \<longleftrightarrow> base_slippage cfg \<le> MAX_SLIPPAGE_BPS cfg \<and> 900 \<le> MAX_SLIPPAGE_BPS cfg"
  by (auto simp: sell_slips_set)

lemma trace_quote_each:
  "trace (quote_each rq ss w) = trace w @ map (\<lambda>s. QuoteCall (rq s)) ss"
  by (induction ss arbitrary: w) (simp_all add: trace_called)

lemma cascade_noroute_map:
  assumes "\<And>s w. f s w = (Inl ''noviableroute'', called (QuoteCall (rq s)) w)"
  shows "cascade (map f ss @ rest) w = cascade rest (quote_each rq ss w)"
  by (induction ss arbitrary: w) (simp_all add: assms noroute_literal)

lemma advance_noroute_map:
  assumes "\<And>s w. f s w = (Inl ''noviableroute'', called (QuoteCall (rq s)) w)"
  shows "advance (map f ss @ rest) w = advance rest (quote_each rq ss w)"
  by (induction ss arbitrary: w) (simp_all add: assms noroute_literal)

lemma quoted_slippages_requests:
  "quoted_slippages (map (\<lambda>s. QuoteCall (sell_request mnt out amt s)) ss) = ss"
  by (induction ss) (simp_all add: sell_request_def)

lemma two_hop_no_route:
  assumes "\<forall>n req. quote_at e n req = NoRoute"
  shows "two_hop e mnt amt slip w
         = (Inl ''noviableroute'', called (QuoteCall (sell_request mnt USDC_MINT amt slip)) w)"
  using assms by (simp add: two_hop_def trySell_eq)

lemma sell_no_route:
  assumes "\<forall>n req. quote_at e n req = NoRoute" and "mnt \<noteq> SOL_MINT" and "0 < amountRaw"
  shows "fst (sellTokenForSol e cfg mnt amountRaw w)
           = Inl ''noviableroute: token illiquid or dust too small''
       \<and> quoted_slippages (new_calls w (snd (sellTokenForSol e cfg mnt amountRaw w)))
           = sell_slips cfg
             @ (if (amountRaw * 95) div 100 > 0 then sell_slips cfg else [])
             @ sell_slips cfg"
proof -
  have d: "trySell e mnt out amt s w
           = (Inl ''noviableroute'', called (QuoteCall (sell_request mnt out amt s)) w)"
    for out amt s w
    using assms(1) by (simp add: trySell_eq)
  have t: "two_hop e mnt amt s w
           = (Inl ''noviableroute'', called (QuoteCall (sell_request mnt USDC_MINT amt s)) w)"
    for amt s w
    using assms(1) by (rule two_hop_no_route)
  have c3: "cascade (map (two_hop e mnt amt) ss) w
         = (None, quote_each (sell_request mnt USDC_MINT amt) ss w)" for amt ss w
    using cascade_noroute_map[where f = "two_hop e mnt amt"
        and rq = "sell_request mnt USDC_MINT amt" and rest = "[]" and ss = ss and w = w, OF t]
    by simp
  define n95 where "n95 = (amountRaw * 95) div 100"
  have sa: "sell_attempts e cfg mnt amountRaw
      = map (tryDirect e mnt amountRaw) (sell_slips cfg)
        @ (if n95 > 0 then map (tryDirect e mnt n95) (sell_slips cfg) else [])
        @ map (two_hop e mnt (if n95 > 0 then n95 else amountRaw)) (sell_slips cfg)"
    unfolding sell_attempts_def Let_def n95_def ..
  have goal: "fst (sellTokenForSol e cfg mnt amountRaw w)
           = Inl ''noviableroute: token illiquid or dust too small''
       \<and> quoted_slippages (new_calls w (snd (sellTokenForSol e cfg mnt amountRaw w)))
           = sell_slips cfg @ (if n95 > 0 then sell_slips cfg else []) @ sell_slips cfg"
  proof (cases "n95 > 0")
    case True
    have "cascade (sell_attempts e cfg mnt amountRaw) w
          = (None, quote_each (sell_request mnt USDC_MINT n95) (sell_slips cfg)
                     (quote_each (sell_request mnt SOL_MINT n95) (sell_slips cfg)
                       (quote_each (sell_request mnt SOL_MINT amountRaw) (sell_slips cfg) w)))"
      unfolding sa using True
      by (simp add: c3
          cascade_noroute_map[where f = "tryDirect e mnt amountRaw"
            and rq = "sell_request mnt SOL_MINT amountRaw", OF d]
          cascade_noroute_map[where f = "tryDirect e mnt n95"
            and rq = "sell_request mnt SOL_MINT n95", OF d])
    with True assms(2,3) show ?thesis
      by (simp add: sellTokenForSol_cascade new_calls_def trace_quote_each
          quoted_slippages_append quoted_slippages_requests)
  next
    case False
    have "cascade (sell_attempts e cfg mnt amountRaw) w
          = (None, quote_each (sell_request mnt USDC_MINT amountRaw) (sell_slips cfg)
                       (quote_each (sell_request mnt SOL_MINT amountRaw) (sell_slips cfg) w))"
      unfolding sa using False
      by (simp add: c3
          cascade_noroute_map[where f = "tryDirect e mnt amountRaw"
            and rq = "sell_request mnt SOL_MINT amountRaw", OF d])
    with False assms(2,3) show ?thesis
      by (simp add: sellTokenForSol_cascade new_calls_def trace_quote_each
          quoted_slippages_append quoted_slippages_requests)
  qed
  then show ?thesis
    unfolding n95_def .
qed

lemma mint_not_sol: "''M1'' \<noteq> SOL_MINT"
  by (simp add: SOL_MINT_def)

lemma advance_no_route:
  assumes "\<forall>n req. quote_at e n req = NoRoute"
  shows "\<exists>w'. advance (sell_attempts e cfg mnt amountRaw) w = Some w'"
proof -
  have d: "trySell e mnt out amt s w
           = (Inl ''noviableroute'', called (QuoteCall (sell_request mnt out amt s)) w)"
    for out amt s w
    using assms by (simp add: trySell_eq)
  have t: "two_hop e mnt amt s w
           = (Inl ''noviableroute'', called (QuoteCall (sell_request mnt USDC_MINT amt s)) w)"
    for amt s w
    using assms by (rule two_hop_no_route)
  have a3: "advance (map (two_hop e mnt amt) ss) w
         = Some (quote_each (sell_request mnt USDC_MINT amt) ss w)" for amt ss w
    using advance_noroute_map[where f = "two_hop e mnt amt"
        and rq = "sell_request mnt USDC_MINT amt" and rest = "[]" and ss = ss and w = w, OF t]
    by simp
  define n95 where "n95 = (amountRaw * 95) div 100"
  have sa: "sell_attempts e cfg mnt amountRaw
      = map (tryDirect e mnt amountRaw) (sell_slips cfg)
        @ (if n95 > 0 then map (tryDirect e mnt n95) (sell_slips cfg) else [])
        @ map (two_hop e mnt (if n95 > 0 then n95 else amountRaw)) (sell_slips cfg)"
    unfolding sell_attempts_def Let_def n95_def ..
  show ?thesis
    unfolding sa
    by (simp add: a3
        advance_noroute_map[where f = "tryDirect e mnt amountRaw"
          and rq = "sell_request mnt SOL_MINT amountRaw", OF d]
        advance_noroute_map[where f = "tryDirect e mnt n95"
          and rq = "sell_request mnt SOL_MINT n95", OF d])
qed

lemma fetch_failed_not_noroute: "\<not> is_noroute ''fetch failed''"
  by code_simp

lemma sell_slips_default: "sell_slips cfg_default = [200, 400, 700, 900, 1100]"
  by (simp add: sell_slips_def cfg_default_def base_slippage_def)


text \<open>The slippage used by the buy path never exceeds the configured maximum, and the
  sell ladder stays within it exactly when the base slippage and the fixed rung 900 do.\<close>

lemma buy_slippage_le_max: "buy_slippage cfg \<le> MAX_SLIPPAGE_BPS cfg"
  by (simp add: buy_slippage_def)

lemma sell_slips_cap_default:
  "MAX_SLIPPAGE_BPS cfg = 1100 \<Longrightarrow> JUP_SLIPPAGE_BPS cfg = 200
     \<Longrightarrow> \<forall>s\<in>set (sell_slips cfg). s \<le> MAX_SLIPPAGE_BPS cfg"
  unfolding sell_slips_within_max by (simp add: base_slippage_def)

text \<open>
  Claim C5 fails on the sell path. With \<open>MAX_SLIPPAGE_BPS = 500\<close> and the default base
  slippage 200, the ladder is 200, 400, 700, 900, 500: only the last rung is capped, and
  a sell that finds no route requests quotes at 700 and 900 in each of its three tiers.
  The buy path, at the same configuration, stays at 200.
\<close>

theorem sell_ladder_exceeds_cap:
  "MAX_SLIPPAGE_BPS cfg_low_cap = 500
   \<and> buy_slippage cfg_low_cap = 200
   \<and> sell_slips cfg_low_cap = [200, 400, 700, 900, 500]
   \<and> fst (sellTokenForSol env_no_route cfg_low_cap ''M1'' 1000 world0)
       = Inl ''noviableroute: token illiquid or dust too small''
   \<and> quoted_slippages (new_calls world0 (snd (sellTokenForSol env_no_route cfg_low_cap ''M1'' 1000 world0)))
       = [200, 400, 700, 900, 500, 200, 400, 700, 900, 500, 200, 400, 700, 900, 500]"
proof -
  have s: "sell_slips cfg_low_cap = [200, 400, 700, 900, 500]"
    by (simp add: sell_slips_def cfg_low_cap_def cfg_default_def base_slippage_def)
  have n: "\<forall>n req. quote_at env_no_route n req = NoRoute"
    by (simp add: env_no_route_def)
  have a: "(0 :: int) < 1000" by simp
  from sell_no_route[OF n mint_not_sol a, of cfg_low_cap world0] s
  show ?thesis
    by (simp add: cfg_low_cap_def cfg_default_def buy_slippage_def base_slippage_def)
qed


text \<open>
  Claim C8, as the code has it. With \<open>sell_attempts\<close> the attempts of the three tiers
  in order: when the attempts before one all fail by no-route and that one ends with a
  success or with an error that is not a no-route failure, \<open>sellTokenForSol\<close> returns
  exactly that outcome, in the world right after that attempt; when all attempts fail by
  no-route it fails with \<open>noviableroute: token illiquid or dust too small\<close>. A two-hop
  attempt fails exactly when its first hop fails, and with that error. Once the first hop
  has succeeded the attempt is a success whatever happens next: a balance read that
  fails counts as a balance of zero and ends the attempt with the first hop's
  confirmation, and no failure of the second hop is propagated.
\<close>

theorem sell_cascade:
  assumes "mnt \<noteq> SOL_MINT" and "0 < amountRaw"
  shows "(sell_attempts e cfg mnt amountRaw = pre @ a # post \<and> advance pre w = Some w0
            \<and> a w0 = (r, w1) \<and> decisive r
          \<longrightarrow> sellTokenForSol e cfg mnt amountRaw w = (r, w1))
       \<and> (advance (sell_attempts e cfg mnt amountRaw) w = Some w'
          \<longrightarrow> sellTokenForSol e cfg mnt amountRaw w
                = (Inl ''noviableroute: token illiquid or dust too small'', w'))
       \<and> (fst (two_hop e mnt amt slip w) = Inl msg
            \<longleftrightarrow> fst (toUSDC e mnt amt slip w) = Inl msg)
       \<and> (toUSDC e mnt amt slip w = (Inr sig1, w2)
          \<longrightarrow> fst (two_hop e mnt amt slip w) = Inr sig1
              \<or> (\<exists>sig2. fst (two_hop e mnt amt slip w) = Inr (sig1 @ '' , '' @ sig2)))
       \<and> (toUSDC e mnt amt slip w = (Inr sig1, w2)
            \<and> balance_at e (clock w2) USDC_MINT = BalanceFails bmsg
          \<longrightarrow> two_hop e mnt amt slip w = (Inr sig1, called (BalanceCall USDC_MINT) w2))"
proof -
  have c1: "sellTokenForSol e cfg mnt amountRaw w = (r, w1)"
    if "sell_attempts e cfg mnt amountRaw = pre @ a # post" "advance pre w = Some w0"
      "a w0 = (r, w1)" "decisive r"
    using that assms by (simp add: sellTokenForSol_cascade cascade_decisive)
  have c2: "sellTokenForSol e cfg mnt amountRaw w
                = (Inl ''noviableroute: token illiquid or dust too small'', w')"
    if "advance (sell_attempts e cfg mnt amountRaw) w = Some w'"
    using that assms by (simp add: sellTokenForSol_cascade cascade_exhausted)
  have c3: "fst (two_hop e mnt amt slip w) = Inl msg
            \<longleftrightarrow> fst (toUSDC e mnt amt slip w) = Inl msg"
    by (rule two_hop_fails)
  have c4: "fst (two_hop e mnt amt slip w) = Inr sig1
              \<or> (\<exists>sig2. fst (two_hop e mnt amt slip w) = Inr (sig1 @ '' , '' @ sig2))"
    if "toUSDC e mnt amt slip w = (Inr sig1, w2)"
    using that by (rule two_hop_after_first_hop)
  have c5: "two_hop e mnt amt slip w = (Inr sig1, called (BalanceCall USDC_MINT) w2)"
    if "toUSDC e mnt amt slip w = (Inr sig1, w2)"
      "balance_at e (clock w2) USDC_MINT = BalanceFails bmsg"
    using that by (rule two_hop_balance_fails)
  from c1 c2 c3 c4 c5 show ?thesis
    by blast
qed

theorem sell_cascade_witness:
  "''M1'' \<noteq> SOL_MINT
   \<and> sellTokenForSol env_quote_error cfg_default ''M1'' 1000 world0
       = (Inl ''fetch failed'', called (QuoteCall (sell_request ''M1'' SOL_MINT 1000 200)) world0)
   \<and> fst (sellTokenForSol env_no_route cfg_default ''M1'' 1000 world0)
       = Inl ''noviableroute: token illiquid or dust too small''
   \<and> toUSDC env_balance_fails ''M1'' 1000 200 world0
       = (Inr ''sig1'',
          called (SwapCall \<lparr> answers = sell_request ''M1'' USDC_MINT 1000 200, payload = 1 \<rparr>)
            (called (QuoteCall (sell_request ''M1'' USDC_MINT 1000 200)) world0))
   \<and> balance_at env_balance_fails 2 USDC_MINT = BalanceFails ''rpc down''
   \<and> two_hop env_balance_fails ''M1'' 1000 200 world0
       = (Inr ''sig1'',
          called (BalanceCall USDC_MINT)
            (called (SwapCall \<lparr> answers = sell_request ''M1'' USDC_MINT 1000 200, payload = 1 \<rparr>)
              (called (QuoteCall (sell_request ''M1'' USDC_MINT 1000 200)) world0)))"
proof -
  have h: "''M1'' \<noteq> SOL_MINT" "(0 :: int) < 1000"
    by (simp_all add: SOL_MINT_def)
  have at: "sell_attempts env_quote_error cfg_default ''M1'' 1000
      = [] @ tryDirect env_quote_error ''M1'' 1000 200
          # (map (tryDirect env_quote_error ''M1'' 1000) [400, 700, 900, 1100]
             @ map (tryDirect env_quote_error ''M1'' 950) [200, 400, 700, 900, 1100]
             @ map (two_hop env_quote_error ''M1'' 950) [200, 400, 700, 900, 1100])"
    by (simp add: sell_attempts_def Let_def sell_slips_default)
  have a0: "advance [] world0 = Some world0"
    by simp
  have a1: "tryDirect env_quote_error ''M1'' 1000 200 world0
      = (Inl ''fetch failed'', called (QuoteCall (sell_request ''M1'' SOL_MINT 1000 200)) world0)"
    by (simp add: trySell_eq env_quote_error_def)
  have d: "decisive (Inl ''fetch failed'')"
    by (simp add: decisive_def fetch_failed_not_noroute)
  have n: "\<forall>n req. quote_at env_no_route n req = NoRoute"
    by (simp add: env_no_route_def)
  from advance_no_route[OF n, of cfg_default "''M1''" 1000 world0]
  obtain w' where ex: "advance (sell_attempts env_no_route cfg_default ''M1'' 1000) world0 = Some w'"
    by blast
  have u: "toUSDC env_balance_fails ''M1'' 1000 200 world0
       = (Inr ''sig1'',
          called (SwapCall \<lparr> answers = sell_request ''M1'' USDC_MINT 1000 200, payload = 1 \<rparr>)
            (called (QuoteCall (sell_request ''M1'' USDC_MINT 1000 200)) world0))"
    by (simp add: trySell_eq doSwap_eq env_balance_fails_def)
  have b: "balance_at env_balance_fails 2 USDC_MINT = BalanceFails ''rpc down''"
    by (simp add: env_balance_fails_def)
  have b': "balance_at env_balance_fails
       (clock (called (SwapCall \<lparr> answers = sell_request ''M1'' USDC_MINT 1000 200, payload = 1 \<rparr>)
                (called (QuoteCall (sell_request ''M1'' USDC_MINT 1000 200)) world0)))
       USDC_MINT = BalanceFails ''rpc down''"
    by (simp add: env_balance_fails_def)
  note t = sell_cascade [OF h]
  from t[of env_quote_error cfg_default "[]" _ _ world0 world0] at a0 a1 d
  have r1: "sellTokenForSol env_quote_error cfg_default ''M1'' 1000 world0
       = (Inl ''fetch failed'', called (QuoteCall (sell_request ''M1'' SOL_MINT 1000 200)) world0)"
    by blast
  from t[of env_no_route cfg_default _ _ _ world0 _ _ _ w'] ex
  have r2: "fst (sellTokenForSol env_no_route cfg_default ''M1'' 1000 world0)
       = Inl ''noviableroute: token illiquid or dust too small''"
    by simp
  from t[where e = env_balance_fails and amt = 1000 and slip = 200 and w = world0
      and ?sig1.0 = "''sig1''" and bmsg = "''rpc down''"] u b'
  have r3: "two_hop env_balance_fails ''M1'' 1000 200 world0
       = (Inr ''sig1'',
          called (BalanceCall USDC_MINT)
            (called (SwapCall \<lparr> answers = sell_request ''M1'' USDC_MINT 1000 200, payload = 1 \<rparr>)
              (called (QuoteCall (sell_request ''M1'' USDC_MINT 1000 200)) world0)))"
    by blast
  from h(1) r1 r2 u b r3 show ?thesis by (intro conjI)
qed


text \<open>The claim as written fails in the second hop: its swap raises
  \<open>swap http 500: boom\<close>, which is not a no-route failure, and the sell returns the
  first hop's confirmation instead of propagating the error.\<close>

theorem sell_second_hop_counterexample:
  "fst (sellTokenForSol env_second_hop cfg_default ''M1'' 1 world0) = Inr ''sig1''
   \<and> swap_at env_second_hop 9 \<lparr> answers = sell_request USDC_MINT SOL_MINT 5 200, payload = 1 \<rparr>
       = SwapFails ''swap http 500: boom''
   \<and> last (trace (snd (sellTokenForSol env_second_hop cfg_default ''M1'' 1 world0)))
       = SwapCall \<lparr> answers = sell_request USDC_MINT SOL_MINT 5 200, payload = 1 \<rparr>
   \<and> clock (snd (sellTokenForSol env_second_hop cfg_default ''M1'' 1 world0)) = 10
   \<and> \<not> is_noroute ''swap http 500: boom''"
proof -
  have h: "''M1'' \<noteq> SOL_MINT" "(0 :: int) < 1"
    by (simp_all add: SOL_MINT_def)
  have c0: "clock world0 = 0"
    by (simp add: world0_def)
  have run: "sellTokenForSol env_second_hop cfg_default ''M1'' 1 world0
      = (Inr ''sig1'',
         called (SwapCall \<lparr> answers = sell_request USDC_MINT SOL_MINT 5 200, payload = 1 \<rparr>)
          (called (QuoteCall (sell_request USDC_MINT SOL_MINT 5 200))
            (called (BalanceCall USDC_MINT)
              (called (SwapCall \<lparr> answers = sell_request ''M1'' USDC_MINT 1 200, payload = 1 \<rparr>)
                (called (QuoteCall (sell_request ''M1'' USDC_MINT 1 200))
                  (called (QuoteCall (sell_request ''M1'' SOL_MINT 1 1100))
                    (called (QuoteCall (sell_request ''M1'' SOL_MINT 1 900))
                      (called (QuoteCall (sell_request ''M1'' SOL_MINT 1 700))
                        (called (QuoteCall (sell_request ''M1'' SOL_MINT 1 400))
                          (called (QuoteCall (sell_request ''M1'' SOL_MINT 1 200)) world0))))))))))"
    by (simp add: sellTokenForSol_cascade h sell_attempts_def sell_slips_default trySell_eq
        two_hop_def getTokenBalance_def getQuote_def doSwap_eq clock_called c0
        env_second_hop_def noroute_literal)
  show ?thesis
    unfolding run
    by (simp add: trace_called clock_called c0 env_second_hop_def http500_not_noroute)
qed

end
